theory Spec2Isabelle
  imports Complex_Main
begin

section \<open>The gForce layout of src/layout/gForce.ts\<close>

text \<open>
  Numbers. A number that the code computes is modelled as a real: no rounding, no
  overflow, and no NaN or Infinity. Where the code would produce Infinity or NaN (a zero
  divisor), the
  quotient of HOL is not what the code computes, so the statements about the forces
  below carry the hypotheses that make the divisors non-zero (a non-zero separation, a
  non-zero distance scale, non-zero masses). On doubles every product, quotient and
  square root is rounded; no statement below claims an exact value of the velocity or of
  the displacement of the code.

  Values that come from the caller (pinned coordinates, start positions, the result of
  the centre callback) may be NaN or an infinity. Where such a value would enter a
  position or the acceleration array, the model stops with \<open>NonFinite\<close>; the code
  throws nothing there and goes on computing with it.

  \<open>Math.random()\<close> is a stream \<open>rnd :: nat \<Rightarrow> real\<close> read at a counter that every
  function using it takes and returns.

  Callbacks of the caller (strength, distance, mass, size, centre) are pure functions.
\<close>

subsection \<open>Values and the helpers of ../util\<close>

datatype jsval =
    JUndefined
  | JNull
  | JBool bool
  | JNum real
  | JNaN
  | JInf bool
  | JStr string
  | JArr "jsval list"

text \<open>
  \<open>JNum\<close> is a finite number, \<open>JInf True\<close> is \<open>Infinity\<close> and \<open>JInf False\<close> is
  \<open>-Infinity\<close>. \<open>TypeError\<close> is the exception of the code; \<open>NonFinite\<close> is no
  exception, it marks the point where the model stops.
\<close>

datatype error = TypeError | NonFinite

text \<open>
  \<open>isNumber\<close> is imported from ../util, which is not part of the sources at hand. It is
  taken to be the type test \<open>typeof value === 'number'\<close>, which NaN and the infinities
  pass. (The spec reads it as "is a finite number"; the two readings differ on exactly
  these values.)
\<close>

definition isNumber :: "jsval \<Rightarrow> bool" where
  "isNumber v = (case v of JNum r \<Rightarrow> True | JNaN \<Rightarrow> True | JInf b \<Rightarrow> True | _ \<Rightarrow> False)"

text \<open>\<open>x - v\<close> for a real \<open>x\<close> and a value \<open>v\<close> that has passed \<open>isNumber\<close>.\<close>

definition subNum :: "real \<Rightarrow> jsval \<Rightarrow> jsval" where
  "subNum x v = (case v of JNum r \<Rightarrow> JNum (x - r) | JInf b \<Rightarrow> JInf (\<not> b) | _ \<Rightarrow> JNaN)"

text \<open>JavaScript truthiness, as \<open>&&\<close>, \<open>||\<close> and \<open>!\<close> test it.\<close>

definition truthy :: "jsval \<Rightarrow> bool" where
  "truthy v =
     (case v of
        JUndefined \<Rightarrow> False
      | JNull \<Rightarrow> False
      | JBool b \<Rightarrow> b
      | JNum r \<Rightarrow> r \<noteq> 0
      | JNaN \<Rightarrow> False
      | JInf b \<Rightarrow> True
      | JStr s \<Rightarrow> s \<noteq> []
      | JArr xs \<Rightarrow> True)"

text \<open>
  \<open>v[k]\<close> for a truthy \<open>v\<close>: an array element, a one-character string, and
  \<open>undefined\<close> for everything else and out of range.
\<close>

definition jsIndex :: "jsval \<Rightarrow> nat \<Rightarrow> jsval" where
  "jsIndex v k =
     (case v of
        JArr xs \<Rightarrow> (if k < length xs then xs ! k else JUndefined)
      | JStr s \<Rightarrow> (if k < length s then JStr [s ! k] else JUndefined)
      | _ \<Rightarrow> JUndefined)"

text \<open>\<open>a || b\<close> on numbers.\<close>

definition orElse :: "real \<Rightarrow> real \<Rightarrow> real" where
  "orElse a b = (if a \<noteq> 0 then a else b)"

subsection \<open>Nodes and edges\<close>

text \<open>\<open>node.size\<close>: absent, a number, a pair, or an object with width and height.\<close>

datatype sizeval = SizeAbsent | SizeNum real | SizeArr real real | SizeObj real real

text \<open>A node as the caller hands it over: the position may be missing.\<close>

record rawnode =
  raw_id :: string
  raw_x :: jsval
  raw_y :: jsval
  raw_fx :: jsval
  raw_fy :: jsval
  raw_size :: sizeval

text \<open>A node once \<open>execute\<close> has given it a position.\<close>

record node =
  node_id :: string
  node_x :: real
  node_y :: real
  node_fx :: jsval
  node_fy :: jsval
  node_size :: sizeval

text \<open>
  Modelled from the spec: \<open>getEdgeTerminal\<close> is imported from ../util; it gives the id
  of the source or of the target of an edge.
\<close>

record edge =
  edge_source :: string
  edge_target :: string

datatype terminal = Source | Target

definition getEdgeTerminal :: "edge \<Rightarrow> terminal \<Rightarrow> string" where
  "getEdgeTerminal e t = (case t of Source \<Rightarrow> edge_source e | Target \<Rightarrow> edge_target e)"

subsection \<open>proccessToFunc\<close>

text \<open>A configuration value: absent, a number, or a callback.\<close>

datatype 'a cfgval = Absent | Num real | Fn "'a \<Rightarrow> real"

definition falsyCfg :: "'a cfgval \<Rightarrow> bool" where
  "falsyCfg v = (case v of Absent \<Rightarrow> True | Num r \<Rightarrow> r = 0 | Fn f \<Rightarrow> False)"

definition isNumberCfg :: "'a cfgval \<Rightarrow> bool" where
  "isNumberCfg v = (case v of Num r \<Rightarrow> True | _ \<Rightarrow> False)"

text \<open>\<open>defaultV || 1\<close> for the optional second argument.\<close>

definition defaultOr1 :: "real option \<Rightarrow> real" where
  "defaultOr1 defaultV = (case defaultV of None \<Rightarrow> 1 | Some d \<Rightarrow> orElse d 1)"

definition proccessToFunc :: "'a cfgval \<Rightarrow> real option \<Rightarrow> ('a \<Rightarrow> real)" where
  "proccessToFunc val defaultV =
     (if falsyCfg val then (\<lambda>d. defaultOr1 defaultV)
      else if isNumberCfg val then (\<lambda>d. case val of Num r \<Rightarrow> r | _ \<Rightarrow> 0)
      else (case val of Fn f \<Rightarrow> f | _ \<Rightarrow> (\<lambda>d. 0)))"

subsection \<open>The layout object\<close>

text \<open>
  The fields of \<open>this\<close> that the step functions read, as they are once \<open>execute\<close> has
  normalised them: the three strengths are functions, \<open>nodeSize\<close> is a function or
  undefined, \<open>degrees\<close> holds the \<open>all\<close> count of each node.

  The function that \<open>execute\<close> stores in \<open>nodeSize\<close> returns numbers, \<open>Sizes f\<close>,
  except when \<open>nodeSize\<close> was configured as a callback: then it returns the text of
  that callback with the spacing appended, which is not a number: \<open>NotANumber\<close>.

  \<open>nodeMap\<close> holds references to the node objects themselves, and \<open>execute\<close> fills it
  in the loop that fills \<open>nodeIdxMap\<close>: the entry of an id is the node at the index
  that \<open>nodeIdxMap\<close> gives for that id. So the model keeps \<open>nodeIdxMap\<close> only and looks
  the node up in the current node list.
\<close>

type_synonym buffer = "nat \<Rightarrow> real"

datatype sizefun = Sizes "node \<Rightarrow> real" | NotANumber

record layout =
  maxIteration :: real
  workerEnabled :: bool
  animate :: bool
  edgeStrength :: "edge \<Rightarrow> real"
  nodeStrength :: "node \<Rightarrow> real"
  linkDistance :: "edge \<Rightarrow> node \<Rightarrow> node \<Rightarrow> real"
  coulombDisScale :: real
  damping :: real
  maxSpeed :: real
  minMovement :: real
  interval :: real
  factor :: real
  getMass :: "(node \<Rightarrow> real) option"
  getCenter :: "(node \<Rightarrow> nat \<Rightarrow> jsval) option"
  gravity :: real
  center :: "real \<times> real"
  preventOverlap :: bool
  nodeSize :: "sizefun option"
  collideStrength :: real
  degrees :: "nat list"
  nodeIdxMap :: "string \<rightharpoonup> nat"

definition nodeMap :: "layout \<Rightarrow> node list \<Rightarrow> string \<rightharpoonup> node" where
  "nodeMap self nodes k =
     (case nodeIdxMap self k of
        None \<Rightarrow> None
      | Some i \<Rightarrow> (if i < length nodes then Some (nodes ! i) else None))"

text \<open>\<open>getMass ? getMass(n) : 1\<close>\<close>

definition massOf :: "layout \<Rightarrow> node \<Rightarrow> real" where
  "massOf self n = (case getMass self of None \<Rightarrow> 1 | Some g \<Rightarrow> g n)"

text \<open>
  The acceleration and velocity arrays: index to number. \<open>runOneStep\<close> sets the
  entries \<open>2 * i\<close> and \<open>2 * i + 1\<close> of every node to zero before any of them is read.
\<close>

definition addAt :: "buffer \<Rightarrow> nat \<Rightarrow> real \<Rightarrow> buffer" where
  "addAt a k v = a(k := a k + v)"

definition subAt :: "buffer \<Rightarrow> nat \<Rightarrow> real \<Rightarrow> buffer" where
  "subAt a k v = a(k := a k - v)"

text \<open>\<open>xs.forEach\<close> with a body that may throw: the first exception ends the loop.\<close>

fun forEachE :: "('a \<Rightarrow> 's \<Rightarrow> error + 's) \<Rightarrow> 'a list \<Rightarrow> 's \<Rightarrow> error + 's" where
  "forEachE f [] s = Inr s"
| "forEachE f (a # as) s =
     (case f a s of Inl e \<Rightarrow> Inl e | Inr s' \<Rightarrow> forEachE f as s')"

subsection \<open>calRepulsive\<close>

text \<open>
  The body of the inner loop for the nodes \<open>ni\<close> at index \<open>i\<close> and \<open>nj\<close> at index \<open>j\<close>;
  the state is the acceleration array and the counter of the random stream. With sizes
  that are not numbers the comparison \<open>(nodeSize(ni) + nodeSize(nj)) / 2 > vecLength\<close>
  is a comparison with NaN, which is false.
\<close>

definition repulsivePair ::
  "layout \<Rightarrow> (nat \<Rightarrow> real) \<Rightarrow> real \<Rightarrow> nat \<Rightarrow> node \<Rightarrow> nat \<times> node \<Rightarrow> buffer \<times> nat
     \<Rightarrow> error + buffer \<times> nat" where
  "repulsivePair self rnd massi i ni jn st =
     (case jn of (j, nj) \<Rightarrow> case st of (accArray, r) \<Rightarrow>
      if i \<ge> j then Inr (accArray, r)
      else
        let vecX0 = node_x ni - node_x nj;
            vecY0 = node_y ni - node_y nj;
            coincide = (vecX0 = 0 \<and> vecY0 = 0);
            vecX = (if coincide then rnd r * 0.01 else vecX0);
            vecY = (if coincide then rnd (r + 1) * 0.01 else vecY0);
            r' = (if coincide then r + 2 else r);
            lengthSqr = vecX * vecX + vecY * vecY;
            vecLength = sqrt lengthSqr;
            nVecLength = (vecLength + 0.1) * coulombDisScale self;
            direX = vecX / vecLength;
            direY = vecY / vecLength;
            param = (((nodeStrength self ni + nodeStrength self nj) * 0.5) * factor self)
                      / (nVecLength * nVecLength);
            massj = massOf self nj;
            acc1 = addAt accArray (2 * i) (direX * param);
            acc2 = addAt acc1 (2 * i + 1) (direY * param);
            acc3 = subAt acc2 (2 * j) (direX * param);
            acc4 = subAt acc3 (2 * j + 1) (direY * param)
        in
          if preventOverlap self then
            (case nodeSize self of
               None \<Rightarrow> Inl TypeError
             | Some NotANumber \<Rightarrow> Inr (acc4, r')
             | Some (Sizes sz) \<Rightarrow>
                 if (sz ni + sz nj) / 2 > vecLength then
                   let paramOverlap =
                         collideStrength self * (nodeStrength self ni + nodeStrength self nj) * 0.5
                           / lengthSqr;
                       acc5 = addAt acc4 (2 * i) ((direX * paramOverlap) / massi);
                       acc6 = addAt acc5 (2 * i + 1) ((direY * paramOverlap) / massi);
                       acc7 = subAt acc6 (2 * j) ((direX * paramOverlap) / massj);
                       acc8 = subAt acc7 (2 * j + 1) ((direY * paramOverlap) / massj)
                   in Inr (acc8, r')
                 else Inr (acc4, r'))
          else Inr (acc4, r'))"

definition calRepulsive ::
  "layout \<Rightarrow> (nat \<Rightarrow> real) \<Rightarrow> node list \<Rightarrow> buffer \<times> nat \<Rightarrow> error + buffer \<times> nat" where
  "calRepulsive self rnd nodes st =
     forEachE
       (\<lambda>(i, ni) st1.
          let massi = massOf self ni
          in forEachE (repulsivePair self rnd massi i ni) (enumerate 0 nodes) st1)
       (enumerate 0 nodes) st"

subsection \<open>calAttractive\<close>

text \<open>
  The ideal length \<open>linkDistance(edge, s, t) || 1 + ((nodeSize(s) + nodeSize(t)) || 0) / 2\<close>:
  \<open>||\<close> binds weaker than \<open>+\<close>, and its right side is evaluated, and \<open>nodeSize\<close>
  called, only when the link distance is falsy. Calling an undefined \<open>nodeSize\<close> throws.
  Two sizes that are not numbers add up to a non-empty text, which is truthy and gives
  NaN when halved: the ideal length is NaN, and so is the acceleration.
\<close>

definition idealLength :: "layout \<Rightarrow> edge \<Rightarrow> node \<Rightarrow> node \<Rightarrow> error + real" where
  "idealLength self e sourceNode targetNode =
     (let d = linkDistance self e sourceNode targetNode
      in if d \<noteq> 0 then Inr d
         else
           (case nodeSize self of
              None \<Rightarrow> Inl TypeError
            | Some NotANumber \<Rightarrow> Inl NonFinite
            | Some (Sizes sz) \<Rightarrow> Inr (1 + orElse (sz sourceNode + sz targetNode) 0 / 2)))"

text \<open>
  \<open>accArray[2 * idx + k] -= v\<close> and \<open>+= v\<close> for an index read from \<open>nodeIdxMap\<close>: for
  an id without an index the write goes to the property \<open>NaN\<close> of the array, which
  nothing reads.
\<close>

definition subAtIdx :: "buffer \<Rightarrow> nat option \<Rightarrow> nat \<Rightarrow> real \<Rightarrow> buffer" where
  "subAtIdx a idx k v = (case idx of None \<Rightarrow> a | Some i \<Rightarrow> subAt a (2 * i + k) v)"

definition addAtIdx :: "buffer \<Rightarrow> nat option \<Rightarrow> nat \<Rightarrow> real \<Rightarrow> buffer" where
  "addAtIdx a idx k v = (case idx of None \<Rightarrow> a | Some i \<Rightarrow> addAt a (2 * i + k) v)"

text \<open>The body of the loop over the edges. Reading \<open>x\<close> of a node that is not in
  \<open>nodeMap\<close> throws.\<close>

definition attractiveEdge ::
  "layout \<Rightarrow> (nat \<Rightarrow> real) \<Rightarrow> node list \<Rightarrow> edge \<Rightarrow> buffer \<times> nat \<Rightarrow> error + buffer \<times> nat" where
  "attractiveEdge self rnd nodes e st =
     (case st of (accArray, r) \<Rightarrow>
      let source = getEdgeTerminal e Source;
          target = getEdgeTerminal e Target
      in
        case nodeMap self nodes target of
          None \<Rightarrow> Inl TypeError
        | Some targetNode \<Rightarrow>
        case nodeMap self nodes source of
          None \<Rightarrow> Inl TypeError
        | Some sourceNode \<Rightarrow>
          let vecX0 = node_x targetNode - node_x sourceNode;
              vecY0 = node_y targetNode - node_y sourceNode;
              coincide = (vecX0 = 0 \<and> vecY0 = 0);
              vecX = (if coincide then rnd r * 0.01 else vecX0);
              vecY = (if coincide then rnd (r + 1) * 0.01 else vecY0);
              r' = (if coincide then r + 2 else r);
              vecLength = sqrt (vecX * vecX + vecY * vecY);
              direX = vecX / vecLength;
              direY = vecY / vecLength
          in
            case idealLength self e sourceNode targetNode of
              Inl err \<Rightarrow> Inl err
            | Inr len \<Rightarrow>
                let diff = len - vecLength;
                    param = diff * edgeStrength self e;
                    sourceIdx = nodeIdxMap self source;
                    targetIdx = nodeIdxMap self target;
                    massSource = massOf self sourceNode;
                    massTarget = massOf self targetNode;
                    acc1 = subAtIdx accArray sourceIdx 0 ((direX * param) / massSource);
                    acc2 = subAtIdx acc1 sourceIdx 1 ((direY * param) / massSource);
                    acc3 = addAtIdx acc2 targetIdx 0 ((direX * param) / massTarget);
                    acc4 = addAtIdx acc3 targetIdx 1 ((direY * param) / massTarget)
                in Inr (acc4, r'))"

definition calAttractive ::
  "layout \<Rightarrow> (nat \<Rightarrow> real) \<Rightarrow> node list \<Rightarrow> edge list \<Rightarrow> buffer \<times> nat
     \<Rightarrow> error + buffer \<times> nat" where
  "calAttractive self rnd nodes edges st = forEachE (attractiveEdge self rnd nodes) edges st"

subsection \<open>calGravity\<close>

text \<open>
  The centre and the strength that the loop body settles on for the node at index \<open>i\<close>:
  \<open>(vecX, vecY, gravity)\<close>. \<open>degrees[i].all\<close> throws when \<open>degrees\<close> has no entry \<open>i\<close>.
  The entries of a custom centre have passed \<open>isNumber\<close> only, so the three values may
  be NaN or infinite.
\<close>

definition gravityOf :: "layout \<Rightarrow> nat \<Rightarrow> node \<Rightarrow> error + jsval \<times> jsval \<times> jsval" where
  "gravityOf self i n =
     (let vecX = JNum (node_x n - fst (center self));
          vecY = JNum (node_y n - snd (center self));
          defaultGravity = JNum (gravity self)
      in
        case getCenter self of
          None \<Rightarrow> Inr (vecX, vecY, defaultGravity)
        | Some gc \<Rightarrow>
            if i < length (degrees self) then
              let customCenterOpt = gc n (degrees self ! i)
              in
                if truthy customCenterOpt
                   \<and> isNumber (jsIndex customCenterOpt 0)
                   \<and> isNumber (jsIndex customCenterOpt 1)
                   \<and> isNumber (jsIndex customCenterOpt 2)
                then
                  Inr (subNum (node_x n) (jsIndex customCenterOpt 0),
                       subNum (node_y n) (jsIndex customCenterOpt 1),
                       jsIndex customCenterOpt 2)
                else Inr (vecX, vecY, defaultGravity)
            else Inl TypeError)"

text \<open>
  \<open>if (!gravity) continue\<close> skips the node when the strength is zero or NaN. Otherwise
  \<open>gravity * vecX\<close> and \<open>gravity * vecY\<close> are subtracted; with a value that is not
  finite among the three, NaN or an infinity enters the array.
\<close>

definition gravityNode :: "layout \<Rightarrow> nat \<times> node \<Rightarrow> buffer \<Rightarrow> error + buffer" where
  "gravityNode self inode accArray =
     (case inode of (i, n) \<Rightarrow>
      case gravityOf self i n of
        Inl err \<Rightarrow> Inl err
      | Inr (vx, vy, g) \<Rightarrow>
          if \<not> truthy g then Inr accArray
          else
            (case (vx, vy, g) of
               (JNum vecX, JNum vecY, JNum grav) \<Rightarrow>
                 Inr (subAt (subAt accArray (2 * i) (grav * vecX)) (2 * i + 1) (grav * vecY))
             | _ \<Rightarrow> Inl NonFinite))"

definition calGravity :: "layout \<Rightarrow> node list \<Rightarrow> buffer \<Rightarrow> error + buffer" where
  "calGravity self nodes accArray = forEachE (gravityNode self) (enumerate 0 nodes) accArray"

subsection \<open>updateVelocity and updatePosition\<close>

text \<open>
  The velocity of the node at index \<open>i\<close>, before and after the clamp, in the exact
  arithmetic of the model. The code rounds each product, the square root and the
  quotient to a double, so its values differ from these by rounding errors (already
  \<open>0.02 * 0.9\<close> is not \<open>0.018\<close> there), and a square that overflows turns the clamped
  velocity into zero. The statements below use these two functions only as the place
  where the velocity comes from, never for their exact values.
\<close>

definition rawVelocity :: "layout \<Rightarrow> buffer \<Rightarrow> real \<Rightarrow> nat \<Rightarrow> real \<times> real" where
  "rawVelocity self accArray stepInterval i =
     (let param = stepInterval * damping self
      in (orElse (accArray (2 * i) * param) 0.01, orElse (accArray (2 * i + 1) * param) 0.01))"

definition clampVelocity :: "layout \<Rightarrow> real \<times> real \<Rightarrow> real \<times> real" where
  "clampVelocity self v =
     (case v of (vx, vy) \<Rightarrow>
      let vLength = sqrt (vx * vx + vy * vy)
      in if vLength > maxSpeed self then
           let param2 = maxSpeed self / vLength in (param2 * vx, param2 * vy)
         else (vx, vy))"

definition velocityNode :: "layout \<Rightarrow> buffer \<Rightarrow> real \<Rightarrow> nat \<times> node \<Rightarrow> buffer \<Rightarrow> buffer" where
  "velocityNode self accArray stepInterval inode velArray =
     (case inode of (i, n) \<Rightarrow>
      case clampVelocity self (rawVelocity self accArray stepInterval i) of (vx, vy) \<Rightarrow>
        (velArray(2 * i := vx))(2 * i + 1 := vy))"

definition updateVelocity :: "layout \<Rightarrow> buffer \<Rightarrow> buffer \<Rightarrow> real \<Rightarrow> node list \<Rightarrow> buffer" where
  "updateVelocity self accArray velArray stepInterval nodes =
     fold (velocityNode self accArray stepInterval) (enumerate 0 nodes) velArray"

text \<open>
  The new state of one node. Pinned coordinates have passed \<open>isNumber\<close> only: a pin
  that is NaN or infinite puts the node at a position that is not a real.
\<close>

definition positionNode :: "buffer \<Rightarrow> real \<Rightarrow> nat \<times> node \<Rightarrow> error + node" where
  "positionNode velArray stepInterval inode =
     (case inode of (i, n) \<Rightarrow>
      if isNumber (node_fx n) \<and> isNumber (node_fy n) then
        (case (node_fx n, node_fy n) of
           (JNum px, JNum py) \<Rightarrow> Inr (n\<lparr>node_x := px, node_y := py\<rparr>)
         | _ \<Rightarrow> Inl NonFinite)
      else
        let distX = velArray (2 * i) * stepInterval;
            distY = velArray (2 * i + 1) * stepInterval
        in Inr (n\<lparr>node_x := node_x n + distX, node_y := node_y n + distY\<rparr>))"

text \<open>The loop handles the nodes one by one: one result for every node.\<close>

definition updatePosition :: "buffer \<Rightarrow> real \<Rightarrow> node list \<Rightarrow> (error + node) list" where
  "updatePosition velArray stepInterval nodes =
     map (positionNode velArray stepInterval) (enumerate 0 nodes)"

text \<open>The list of the values when there is no error, the first error otherwise.\<close>

fun collect :: "(error + 'a) list \<Rightarrow> error + 'a list" where
  "collect [] = Inr []"
| "collect (x # xs) =
     (case x of
        Inl err \<Rightarrow> Inl err
      | Inr a \<Rightarrow> (case collect xs of Inl err \<Rightarrow> Inl err | Inr as \<Rightarrow> Inr (a # as)))"

subsection \<open>runOneStep and reachMoveThreshold\<close>

definition stepIntervalOf :: "layout \<Rightarrow> nat \<Rightarrow> real" where
  "stepIntervalOf self iter = max 0.02 (interval self - real iter * 0.002)"

text \<open>
  One step on the node list and the counter of the random stream; it returns the new
  nodes, the positions before the step, and the counter. The \<open>tick\<close> callback only
  observes.
\<close>

definition runOneStep ::
  "layout \<Rightarrow> (nat \<Rightarrow> real) \<Rightarrow> edge list option \<Rightarrow> nat \<Rightarrow> node list \<times> nat
     \<Rightarrow> error + node list \<times> (real \<times> real) list \<times> nat" where
  "runOneStep self rnd edges iter st =
     (case st of (nodes, r) \<Rightarrow>
      let accArray = (\<lambda>k. 0);
          velArray = (\<lambda>k. 0)
      in
        case calRepulsive self rnd nodes (accArray, r) of
          Inl err \<Rightarrow> Inl err
        | Inr st1 \<Rightarrow>
        case (case edges of None \<Rightarrow> Inr st1 | Some es \<Rightarrow> calAttractive self rnd nodes es st1) of
          Inl err \<Rightarrow> Inl err
        | Inr (acc2, r2) \<Rightarrow>
        case calGravity self nodes acc2 of
          Inl err \<Rightarrow> Inl err
        | Inr acc3 \<Rightarrow>
            let stepInterval = stepIntervalOf self iter;
                vel = updateVelocity self acc3 velArray stepInterval nodes;
                previousPos = map (\<lambda>n. (node_x n, node_y n)) nodes
            in case collect (updatePosition vel stepInterval nodes) of
                 Inl err \<Rightarrow> Inl err
               | Inr nodes' \<Rightarrow> Inr (nodes', previousPos, r2))"

text \<open>
  On an empty node list the mean movement is \<open>0 / 0\<close>, NaN, and \<open>NaN < minMovement\<close> is
  false.
\<close>

definition reachMoveThreshold :: "node list \<Rightarrow> (real \<times> real) list \<Rightarrow> real \<Rightarrow> bool" where
  "reachMoveThreshold nodes previousPos minMove =
     (let movement =
            fold (\<lambda>(n, p) m.
                    let vx = node_x n - fst p; vy = node_y n - snd p
                    in m + sqrt (vx * vx + vy * vy))
                 (zip nodes previousPos) 0
      in if nodes = [] then False
         else movement / real (length nodes) < minMove)"

subsection \<open>run\<close>

text \<open>What a run leaves: the nodes, and how often \<open>onLayoutEnd\<close> has been called.\<close>

record outcome =
  final_nodes :: "node list"
  layoutEnds :: nat

text \<open>The \<open>for\<close> loop of the synchronous branch, from iteration \<open>i\<close> on.\<close>

function syncLoop ::
  "layout \<Rightarrow> (nat \<Rightarrow> real) \<Rightarrow> edge list option \<Rightarrow> nat \<Rightarrow> node list \<times> nat
     \<Rightarrow> error + node list \<times> nat" where
  "syncLoop self rnd edges i st =
     (if real i < maxIteration self then
        (case runOneStep self rnd edges i st of
           Inl err \<Rightarrow> Inl err
         | Inr (nodes', previousPos, r') \<Rightarrow>
             if reachMoveThreshold nodes' previousPos (minMovement self) then Inr (nodes', r')
             else syncLoop self rnd edges (i + 1) (nodes', r'))
      else Inr st)"
  by pat_completeness auto
termination
  by (relation "measure (\<lambda>(self, rnd, edges, i, st). nat \<lceil>maxIteration self - real i\<rceil>)")
     (auto, linarith)

text \<open>
  The timer of the animated branch: the callback runs once per tick, from the first
  tick until \<open>clearInterval\<close> has been called; a callback that has called it still runs
  to its end. \<open>fired\<close> counts the calls of \<open>onLayoutEnd\<close>. An exception leaves the
  callback before \<open>iter++\<close>; no handler is installed.
\<close>

function intervalLoop ::
  "layout \<Rightarrow> (nat \<Rightarrow> real) \<Rightarrow> edge list option \<Rightarrow> nat \<Rightarrow> node list \<times> nat \<Rightarrow> nat
     \<Rightarrow> error + outcome" where
  "intervalLoop self rnd edges iter st fired =
     (case runOneStep self rnd edges iter st of
        Inl err \<Rightarrow> Inl err
      | Inr (nodes', previousPos, r') \<Rightarrow>
          let reached = reachMoveThreshold nodes' previousPos (minMovement self);
              fired1 = (if reached then fired + 1 else fired);
              iter' = iter + 1;
              exhausted = (real iter' \<ge> maxIteration self);
              fired2 = (if exhausted then fired1 + 1 else fired1)
          in if reached \<or> exhausted then Inr \<lparr>final_nodes = nodes', layoutEnds = fired2\<rparr>
             else intervalLoop self rnd edges iter' (nodes', r') fired2)"
  by pat_completeness auto
termination
  by (relation "measure (\<lambda>(self, rnd, edges, iter, st, fired).
                           nat \<lceil>maxIteration self - real iter\<rceil>)")
     (auto, linarith)

text \<open>\<open>window\<close> is the inner size of the window, or \<open>None\<close> where there is no window.\<close>

definition run ::
  "(real \<times> real) option \<Rightarrow> layout \<Rightarrow> (nat \<Rightarrow> real) \<Rightarrow> edge list option
     \<Rightarrow> node list option \<Rightarrow> nat \<Rightarrow> error + outcome" where
  "run window self rnd edges nodesOpt r =
     (case nodesOpt of
        None \<Rightarrow> Inr \<lparr>final_nodes = [], layoutEnds = 0\<rparr>
      | Some nodes \<Rightarrow>
          if workerEnabled self \<or> \<not> animate self then
            (case syncLoop self rnd edges 0 (nodes, r) of
               Inl err \<Rightarrow> Inl err
             | Inr (nodes', r') \<Rightarrow> Inr \<lparr>final_nodes = nodes', layoutEnds = 1\<rparr>)
          else
            (case window of
               None \<Rightarrow> Inr \<lparr>final_nodes = nodes, layoutEnds = 0\<rparr>
             | Some w \<Rightarrow> intervalLoop self rnd edges 0 (nodes, r) 0))"

subsection \<open>execute\<close>

text \<open>
  \<open>nodeSize\<close> as configured: absent, a number, a pair or a callback.
\<close>

datatype nodeSizeCfg = NSAbsent | NSNum real | NSArr real real | NSFn "node \<Rightarrow> real"

text \<open>
  The fields that \<open>execute\<close> reads before it normalises them. The degree records come
  from \<open>getDegree\<close> and the default mass reads them; \<open>getDegree\<close> is imported from
  ../util, so both are taken as given: \<open>cfg_degrees\<close> is the list of the \<open>all\<close> counts,
  \<open>cfg_degreeMass\<close> the closure \<open>d.mass || degrees[nodeIdxMap[d.id]].all || 1\<close>.
\<close>

record config =
  cfg_width :: real
  cfg_height :: real
  cfg_center :: "(real \<times> real) option"
  cfg_linkDistance :: "(edge \<times> node \<times> node) cfgval"
  cfg_nodeStrength :: "node cfgval"
  cfg_edgeStrength :: "edge cfgval"
  cfg_nodeSize :: nodeSizeCfg
  cfg_nodeSpacing :: "node cfgval"
  cfg_degrees :: "nat list"
  cfg_degreeMass :: "node \<Rightarrow> real"

definition nodeSpacingFunc :: "node cfgval \<Rightarrow> node \<Rightarrow> real" where
  "nodeSpacingFunc nodeSpacing =
     (case nodeSpacing of Num r \<Rightarrow> (\<lambda>d. r) | Fn f \<Rightarrow> f | Absent \<Rightarrow> (\<lambda>d. 0))"

text \<open>
  A configured callback is neither falsy nor an array, so it reaches the last branch,
  \<open>(nodeSize as number) + nodeSpacingFunc(d)\<close>: the callback itself is added to the
  spacing, never called, and the sum is a text.
\<close>

definition nodeSizeFunc :: "bool \<Rightarrow> nodeSizeCfg \<Rightarrow> node cfgval \<Rightarrow> sizefun option" where
  "nodeSizeFunc overlap ns nodeSpacing =
     (if overlap then
        (case ns of
           NSArr a b \<Rightarrow> Some (Sizes (\<lambda>d. max a b + nodeSpacingFunc nodeSpacing d))
         | NSFn f \<Rightarrow> Some NotANumber
         | NSNum r \<Rightarrow>
             if r \<noteq> 0 then Some (Sizes (\<lambda>d. r + nodeSpacingFunc nodeSpacing d))
             else Some (Sizes (\<lambda>d.
               case node_size d of
                 SizeArr a b \<Rightarrow> max a b + nodeSpacingFunc nodeSpacing d
               | SizeObj w h \<Rightarrow> max w h + nodeSpacingFunc nodeSpacing d
               | SizeNum v \<Rightarrow>
                   if v \<noteq> 0 then v + nodeSpacingFunc nodeSpacing d
                   else 10 + nodeSpacingFunc nodeSpacing d
               | SizeAbsent \<Rightarrow> 10 + nodeSpacingFunc nodeSpacing d))
         | NSAbsent \<Rightarrow>
             Some (Sizes (\<lambda>d.
               case node_size d of
                 SizeArr a b \<Rightarrow> max a b + nodeSpacingFunc nodeSpacing d
               | SizeObj w h \<Rightarrow> max w h + nodeSpacingFunc nodeSpacing d
               | SizeNum v \<Rightarrow>
                   if v \<noteq> 0 then v + nodeSpacingFunc nodeSpacing d
                   else 10 + nodeSpacingFunc nodeSpacing d
               | SizeAbsent \<Rightarrow> 10 + nodeSpacingFunc nodeSpacing d)))
      else None)"

text \<open>
  A node whose \<open>x\<close> or \<open>y\<close> is not of type number gets a random one inside the canvas.
  A start coordinate that is NaN or infinite is of type number and is kept.
\<close>

definition seedCoord :: "jsval \<Rightarrow> real \<Rightarrow> error + real" where
  "seedCoord v fresh =
     (if isNumber v then (case v of JNum p \<Rightarrow> Inr p | _ \<Rightarrow> Inl NonFinite)
      else Inr fresh)"

definition seedNode ::
  "(nat \<Rightarrow> real) \<Rightarrow> real \<Rightarrow> real \<Rightarrow> rawnode \<Rightarrow> nat \<Rightarrow> error + node \<times> nat" where
  "seedNode rnd width height n r =
     (let r1 = (if isNumber (raw_x n) then r else r + 1);
          r2 = (if isNumber (raw_y n) then r1 else r1 + 1)
      in
        case seedCoord (raw_x n) (rnd r * width) of
          Inl err \<Rightarrow> Inl err
        | Inr px \<Rightarrow>
            (case seedCoord (raw_y n) (rnd r1 * height) of
               Inl err \<Rightarrow> Inl err
             | Inr py \<Rightarrow>
                 Inr (\<lparr>node_id = raw_id n, node_x = px, node_y = py, node_fx = raw_fx n,
                       node_fy = raw_fy n, node_size = raw_size n\<rparr>, r2)))"

fun seedNodes ::
  "(nat \<Rightarrow> real) \<Rightarrow> real \<Rightarrow> real \<Rightarrow> rawnode list \<Rightarrow> nat \<Rightarrow> error + node list \<times> nat" where
  "seedNodes rnd width height [] r = Inr ([], r)"
| "seedNodes rnd width height (n # ns) r =
     (case seedNode rnd width height n r of
        Inl err \<Rightarrow> Inl err
      | Inr (m, r1) \<Rightarrow>
          (case seedNodes rnd width height ns r1 of
             Inl err \<Rightarrow> Inl err
           | Inr (ms, r2) \<Rightarrow> Inr (m # ms, r2)))"

definition buildIdxMap :: "node list \<Rightarrow> string \<rightharpoonup> nat" where
  "buildIdxMap nodes = fold (\<lambda>(i, n) m. m(node_id n \<mapsto> i)) (enumerate 0 nodes) Map.empty"

text \<open>
  One run from a fresh layout object (no timer of an earlier run is pending).
  \<open>self\<close> gives the fields that \<open>execute\<close> leaves as they are; the others are
  rewritten from \<open>cfg\<close>.
\<close>

definition execute ::
  "(real \<times> real) option \<Rightarrow> config \<Rightarrow> layout \<Rightarrow> (nat \<Rightarrow> real) \<Rightarrow> rawnode list option
     \<Rightarrow> edge list option \<Rightarrow> error + outcome" where
  "execute window cfg self rnd nodesOpt edges =
     (case nodesOpt of
        None \<Rightarrow> Inr \<lparr>final_nodes = [], layoutEnds = 1\<rparr>
      | Some [] \<Rightarrow> Inr \<lparr>final_nodes = [], layoutEnds = 1\<rparr>
      | Some (n0 # rest) \<Rightarrow>
          let width = (if cfg_width cfg = 0
                       then (case window of None \<Rightarrow> cfg_width cfg | Some w \<Rightarrow> fst w)
                       else cfg_width cfg);
              height = (if cfg_height cfg = 0
                        then (case window of None \<Rightarrow> cfg_height cfg | Some w \<Rightarrow> snd w)
                        else cfg_height cfg);
              c = (case cfg_center cfg of None \<Rightarrow> (width / 2, height / 2) | Some c0 \<Rightarrow> c0)
          in
            if rest = [] then
              Inr \<lparr>final_nodes =
                     [\<lparr>node_id = raw_id n0, node_x = fst c, node_y = snd c,
                       node_fx = raw_fx n0, node_fy = raw_fy n0, node_size = raw_size n0\<rparr>],
                   layoutEnds = 1\<rparr>
            else
              (case seedNodes rnd width height (n0 # rest) 0 of
                 Inl err \<Rightarrow> Inl err
               | Inr (nodes, r) \<Rightarrow>
               let self' = self
                     \<lparr>center := c,
                      nodeIdxMap := buildIdxMap nodes,
                      linkDistance := (\<lambda>e s t. proccessToFunc (cfg_linkDistance cfg) (Some 1) (e, s, t)),
                      nodeStrength := proccessToFunc (cfg_nodeStrength cfg) (Some 1),
                      edgeStrength := proccessToFunc (cfg_edgeStrength cfg) (Some 1),
                      nodeSize := nodeSizeFunc (preventOverlap self) (cfg_nodeSize cfg)
                                    (cfg_nodeSpacing cfg),
                      degrees := cfg_degrees cfg,
                      getMass := (case getMass self of
                                    None \<Rightarrow> Some (cfg_degreeMass cfg)
                                  | Some g \<Rightarrow> Some g)\<rparr>
               in run window self' rnd edges (Some nodes) r))"

subsection \<open>Pins that are finite\<close>

text \<open>
  A node is pinned when \<open>fx\<close> and \<open>fy\<close> are both of type number. \<open>finitePin\<close> holds
  of a node that is not pinned, and of a node that is pinned at finite coordinates.
\<close>

definition nonFinite :: "jsval \<Rightarrow> bool" where
  "nonFinite v = (case v of JNaN \<Rightarrow> True | JInf b \<Rightarrow> True | _ \<Rightarrow> False)"

definition finitePin :: "node \<Rightarrow> bool" where
  "finitePin n =
     (\<not> (isNumber (node_fx n) \<and> isNumber (node_fy n)
         \<and> (nonFinite (node_fx n) \<or> nonFinite (node_fy n))))"

subsection \<open>Well-formed edges\<close>

text \<open>
  The invariant of the data model: the source and the target of an edge have an index
  below the number of nodes.
\<close>

definition edgeResolves :: "layout \<Rightarrow> nat \<Rightarrow> edge \<Rightarrow> bool" where
  "edgeResolves self n e =
     ((case nodeIdxMap self (edge_source e) of None \<Rightarrow> False | Some i \<Rightarrow> i < n)
      \<and> (case nodeIdxMap self (edge_target e) of None \<Rightarrow> False | Some i \<Rightarrow> i < n))"

subsection \<open>Repulsion in the words of the specification\<close>

text \<open>
  What the specification says one node gets from another, to be compared with what
  \<open>calRepulsive\<close> adds up. Two nodes are handled with a separation vector \<open>v\<close> that
  points from the second to the first: the difference of their positions, or, when they
  are at the same position, a random vector with entries below 0.01.
  \<open>baseAlong self ni nj v\<close> is the base acceleration of \<open>ni\<close> caused by \<open>nj\<close>: the mean
  strength times \<open>factor\<close> over the squared scaled length of \<open>v\<close>, along the unit vector
  of \<open>v\<close>. \<open>collisionAlong self ni nj v\<close> is the collision term of \<open>ni\<close>:
  \<open>collideStrength\<close> times the mean strength over the squared length of \<open>v\<close>, along the
  same unit vector, divided by the mass of \<open>ni\<close>, when overlap prevention is on and the
  half sizes add up to more than the length of \<open>v\<close>, and nothing otherwise.
\<close>

definition coincide :: "node \<Rightarrow> node \<Rightarrow> bool" where
  "coincide ni nj = (node_x ni = node_x nj \<and> node_y ni = node_y nj)"

definition separation :: "(nat \<Rightarrow> real) \<Rightarrow> nat \<Rightarrow> node \<Rightarrow> node \<Rightarrow> real \<times> real" where
  "separation rnd c ni nj =
     (if coincide ni nj then (rnd c * 0.01, rnd (c + 1) * 0.01)
      else (node_x ni - node_x nj, node_y ni - node_y nj))"

definition vlen :: "real \<times> real \<Rightarrow> real" where
  "vlen v = sqrt (fst v * fst v + snd v * snd v)"

definition opposite :: "real \<times> real \<Rightarrow> real \<times> real" where
  "opposite v = (- fst v, - snd v)"

definition unitOf :: "real \<times> real \<Rightarrow> real \<times> real" where
  "unitOf v = (fst v / vlen v, snd v / vlen v)"

definition meanStrength :: "layout \<Rightarrow> node \<Rightarrow> node \<Rightarrow> real" where
  "meanStrength self ni nj = (nodeStrength self ni + nodeStrength self nj) / 2"

definition baseAlong :: "layout \<Rightarrow> node \<Rightarrow> node \<Rightarrow> real \<times> real \<Rightarrow> real \<times> real" where
  "baseAlong self ni nj v =
     (let scaled = (vlen v + 0.1) * coulombDisScale self;
          a = meanStrength self ni nj * factor self / (scaled * scaled)
      in (a * fst (unitOf v), a * snd (unitOf v)))"

definition overlapAt :: "layout \<Rightarrow> node \<Rightarrow> node \<Rightarrow> real \<times> real \<Rightarrow> bool" where
  "overlapAt self ni nj v =
     (preventOverlap self
      \<and> (case nodeSize self of
            Some (Sizes sz) \<Rightarrow> sz ni / 2 + sz nj / 2 > vlen v
          | _ \<Rightarrow> False))"

definition collisionAlong :: "layout \<Rightarrow> node \<Rightarrow> node \<Rightarrow> real \<times> real \<Rightarrow> real \<times> real" where
  "collisionAlong self ni nj v =
     (let c = collideStrength self * meanStrength self ni nj / (vlen v * vlen v)
      in if overlapAt self ni nj v
         then (c * fst (unitOf v) / massOf self ni, c * snd (unitOf v) / massOf self ni)
         else (0, 0))"

definition forceAlong :: "layout \<Rightarrow> node \<Rightarrow> node \<Rightarrow> real \<times> real \<Rightarrow> real \<times> real" where
  "forceAlong self ni nj v =
     (fst (baseAlong self ni nj v) + fst (collisionAlong self ni nj v),
      snd (baseAlong self ni nj v) + snd (collisionAlong self ni nj v))"

text \<open>
  The two loops visit the pairs \<open>i < j\<close> row by row, and every pair of nodes at the same
  position draws two random numbers. \<open>drawsInRow nodes i k\<close> counts the pairs \<open>(i, j)\<close>
  with \<open>j < k\<close> that draw, \<open>drawsBefore nodes i\<close> those of the rows before row \<open>i\<close>;
  \<open>counterAt r nodes i j\<close> is the counter of the random stream when the pair \<open>(i, j)\<close> is
  reached, for a run that starts with the counter at \<open>r\<close>.
\<close>

definition drawsInRow :: "node list \<Rightarrow> nat \<Rightarrow> nat \<Rightarrow> nat" where
  "drawsInRow nodes i k =
     length (filter (\<lambda>j. i < j \<and> coincide (nodes ! i) (nodes ! j)) [0..<k])"

definition drawsBefore :: "node list \<Rightarrow> nat \<Rightarrow> nat" where
  "drawsBefore nodes i = sum_list (map (\<lambda>a. drawsInRow nodes a (length nodes)) [0..<i])"

definition counterAt :: "nat \<Rightarrow> node list \<Rightarrow> nat \<Rightarrow> nat \<Rightarrow> nat" where
  "counterAt r nodes i j = r + 2 * (drawsBefore nodes i + drawsInRow nodes i j)"

text \<open>
  The separation vector that node \<open>t\<close> is pushed along because of node \<open>m\<close>: the pair
  is handled once, at the smaller of the two indices, and the node with the larger index
  gets the opposite vector. \<open>baseTerm\<close> and \<open>collisionTerm\<close> are the two accelerations
  of \<open>t\<close> caused by \<open>m\<close>.
\<close>

definition pairVector :: "(nat \<Rightarrow> real) \<Rightarrow> nat \<Rightarrow> node list \<Rightarrow> nat \<Rightarrow> nat \<Rightarrow> real \<times> real" where
  "pairVector rnd r nodes t m =
     (if t < m then separation rnd (counterAt r nodes t m) (nodes ! t) (nodes ! m)
      else opposite (separation rnd (counterAt r nodes m t) (nodes ! m) (nodes ! t)))"

definition baseTerm ::
  "layout \<Rightarrow> (nat \<Rightarrow> real) \<Rightarrow> nat \<Rightarrow> node list \<Rightarrow> nat \<Rightarrow> nat \<Rightarrow> real \<times> real" where
  "baseTerm self rnd r nodes t m =
     baseAlong self (nodes ! t) (nodes ! m) (pairVector rnd r nodes t m)"

definition collisionTerm ::
  "layout \<Rightarrow> (nat \<Rightarrow> real) \<Rightarrow> nat \<Rightarrow> node list \<Rightarrow> nat \<Rightarrow> nat \<Rightarrow> real \<times> real" where
  "collisionTerm self rnd r nodes t m =
     collisionAlong self (nodes ! t) (nodes ! m) (pairVector rnd r nodes t m)"

text \<open>What the pair \<open>i < j\<close>, handled with the vector \<open>v\<close>, adds to entry \<open>k\<close> of the array.\<close>

definition pairDelta ::
  "layout \<Rightarrow> real \<times> real \<Rightarrow> nat \<Rightarrow> node \<Rightarrow> nat \<Rightarrow> node \<Rightarrow> nat \<Rightarrow> real" where
  "pairDelta self v i ni j nj k =
     (if i < j then
        (if k = 2 * i then fst (forceAlong self ni nj v)
         else if k = 2 * i + 1 then snd (forceAlong self ni nj v)
         else if k = 2 * j then fst (forceAlong self nj ni (opposite v))
         else if k = 2 * j + 1 then snd (forceAlong self nj ni (opposite v))
         else 0)
      else 0)"

subsection \<open>Example data\<close>

text \<open>
  \<open>defaultLayout\<close> holds the field initialisers of the class as \<open>execute\<close> leaves them
  on the default canvas of 300 by 300: the strengths normalised, the centre at
  \<open>(150, 150)\<close>, the node size 10 of a node without a size; the mass callback is still
  absent, so every mass is 1. \<open>defaultConfig\<close> holds the raw values of the same
  initialisers. The other layouts differ from it in the fields named; the nodes and the
  edge are small graphs to run the functions on. \<open>tinyLayout\<close> stands for the
  configuration \<open>nodeSize: 0.001\<close>, and \<open>unevenRnd\<close> is a random stream that gives
  0.6 and 0.8 in turn.
\<close>

definition defaultLayout :: layout where
  "defaultLayout =
     \<lparr>maxIteration = 500, workerEnabled = False, animate = True,
      edgeStrength = (\<lambda>e. 200), nodeStrength = (\<lambda>n. 1000), linkDistance = (\<lambda>e s t. 1),
      coulombDisScale = 0.005, damping = 0.9, maxSpeed = 1000, minMovement = 0.5,
      interval = 0.02, factor = 1, getMass = None, getCenter = None, gravity = 10,
      center = (150, 150), preventOverlap = True, nodeSize = Some (Sizes (\<lambda>n. 10)),
      collideStrength = 1, degrees = [], nodeIdxMap = Map.empty\<rparr>"

definition pinnedNode :: node where
  "pinnedNode = \<lparr>node_id = ''a'', node_x = 0, node_y = 0, node_fx = JNum 5, node_fy = JNum 7,
                  node_size = SizeAbsent\<rparr>"

definition freeNode :: node where
  "freeNode = \<lparr>node_id = ''b'', node_x = 3, node_y = 4, node_fx = JUndefined, node_fy = JUndefined,
                node_size = SizeAbsent\<rparr>"

definition halfPinnedNode :: node where
  "halfPinnedNode = \<lparr>node_id = ''c'', node_x = 1, node_y = 2, node_fx = JNum 50,
                      node_fy = JUndefined, node_size = SizeAbsent\<rparr>"





definition zeroBuffer :: buffer where
  "zeroBuffer = (\<lambda>k. 0)"

definition exampleRnd :: "nat \<Rightarrow> real" where
  "exampleRnd k = 0.5"

definition bufferAt :: "error + buffer \<times> nat \<Rightarrow> nat \<Rightarrow> real option" where
  "bufferAt res k = (case res of Inl err \<Rightarrow> None | Inr (a, r) \<Rightarrow> Some (a k))"

definition nodeA :: node where
  "nodeA = \<lparr>node_id = ''a'', node_x = 0, node_y = 0, node_fx = JUndefined, node_fy = JUndefined,
             node_size = SizeAbsent\<rparr>"

definition nodeB :: node where
  "nodeB = \<lparr>node_id = ''b'', node_x = 1, node_y = 0, node_fx = JUndefined, node_fy = JUndefined,
             node_size = SizeAbsent\<rparr>"

definition nodeC :: node where
  "nodeC = \<lparr>node_id = ''c'', node_x = 0, node_y = 0, node_fx = JUndefined, node_fy = JUndefined,
             node_size = SizeAbsent\<rparr>"

definition tinyLayout :: layout where
  "tinyLayout = defaultLayout\<lparr>nodeSize := Some (Sizes (\<lambda>n. 0.001))\<rparr>"

definition unevenRnd :: "nat \<Rightarrow> real" where
  "unevenRnd k = (if even k then 0.6 else 0.8)"

definition edgeAB :: edge where
  "edgeAB = \<lparr>edge_source = ''a'', edge_target = ''b''\<rparr>"

definition springLayout :: layout where
  "springLayout = defaultLayout\<lparr>linkDistance := (\<lambda>e s t. 3),
                                 nodeIdxMap := [''a'' \<mapsto> 0, ''b'' \<mapsto> 1]\<rparr>"

definition rawA :: rawnode where
  "rawA = \<lparr>raw_id = ''a'', raw_x = JNum 0, raw_y = JNum 0, raw_fx = JUndefined, raw_fy = JUndefined,
            raw_size = SizeAbsent\<rparr>"

definition rawB :: rawnode where
  "rawB = \<lparr>raw_id = ''b'', raw_x = JNum 1, raw_y = JNum 0, raw_fx = JUndefined, raw_fy = JUndefined,
            raw_size = SizeAbsent\<rparr>"

definition zeroLinkConfig :: config where
  "zeroLinkConfig =
     \<lparr>cfg_width = 300, cfg_height = 300, cfg_center = None,
      cfg_linkDistance = Fn (\<lambda>p. 0), cfg_nodeStrength = Num 1000, cfg_edgeStrength = Num 200,
      cfg_nodeSize = NSAbsent, cfg_nodeSpacing = Absent, cfg_degrees = [1, 1],
      cfg_degreeMass = (\<lambda>n. 1)\<rparr>"

definition noOverlapLayout :: layout where
  "noOverlapLayout = defaultLayout\<lparr>preventOverlap := False, animate := False\<rparr>"

definition defaultConfig :: config where
  "defaultConfig =
     \<lparr>cfg_width = 300, cfg_height = 300, cfg_center = None,
      cfg_linkDistance = Num 1, cfg_nodeStrength = Num 1000, cfg_edgeStrength = Num 200,
      cfg_nodeSize = NSAbsent, cfg_nodeSpacing = Absent, cfg_degrees = [0, 0],
      cfg_degreeMass = (\<lambda>n. 1)\<rparr>"

definition rawP :: rawnode where
  "rawP = \<lparr>raw_id = ''p'', raw_x = JNum 0, raw_y = JNum 0, raw_fx = JNum 0, raw_fy = JNum 0,
            raw_size = SizeAbsent\<rparr>"

definition rawQ :: rawnode where
  "rawQ = \<lparr>raw_id = ''q'', raw_x = JNum 1, raw_y = JNum 0, raw_fx = JNum 1, raw_fy = JNum 0,
            raw_size = SizeAbsent\<rparr>"

definition nodeP :: node where
  "nodeP = \<lparr>node_id = ''p'', node_x = 0, node_y = 0, node_fx = JNum 0, node_fy = JNum 0,
             node_size = SizeAbsent\<rparr>"

definition nodeQ :: node where
  "nodeQ = \<lparr>node_id = ''q'', node_x = 1, node_y = 0, node_fx = JNum 1, node_fy = JNum 0,
             node_size = SizeAbsent\<rparr>"

section \<open>Properties\<close>

subsection \<open>Force-function normalisation\<close>

text \<open>
  C6, as stated, fails for the number zero: \<open>!value\<close> is true of \<open>0\<close>, so the first branch
  is taken and the result is the constant default, here 5, not the constant 0.
\<close>

theorem proccessToFunc_zero_counterexample:
  "proccessToFunc (Num 0) (Some 5) () \<noteq> 0"
  by (simp add: proccessToFunc_def falsyCfg_def defaultOr1_def orElse_def)

text \<open>
  C6 (amended): an absent value and the number zero give the constant function that
  returns \<open>defaultV || 1\<close>, which is the default when that is a number other than zero
  and 1 otherwise; a number \<open>v\<close> other than zero gives the constant function returning
  \<open>v\<close>; a callback is returned as it is. The function is pure.
\<close>

theorem proccessToFunc_cases:
  "proccessToFunc (Absent :: 'a cfgval) dv = (\<lambda>d. defaultOr1 dv)
   \<and> proccessToFunc (Num 0 :: 'a cfgval) dv = (\<lambda>d. defaultOr1 dv)
   \<and> (v \<noteq> 0 \<longrightarrow> proccessToFunc (Num v :: 'a cfgval) dv = (\<lambda>d. v))
   \<and> proccessToFunc (Fn (f :: 'a \<Rightarrow> real)) dv = f
   \<and> defaultOr1 None = 1
   \<and> defaultOr1 (Some 0) = 1
   \<and> (dflt \<noteq> 0 \<longrightarrow> defaultOr1 (Some dflt) = dflt)"
  by (simp add: proccessToFunc_def falsyCfg_def isNumberCfg_def defaultOr1_def orElse_def)

theorem proccessToFunc_cases_witness:
  "(3::real) \<noteq> 0 \<and> (2::real) \<noteq> 0
   \<and> proccessToFunc (Num 3) (Some 2) = (\<lambda>d::unit. 3)
   \<and> proccessToFunc Absent (Some 2) = (\<lambda>d::unit. 2)
   \<and> defaultOr1 (Some 2) = 2"
  using proccessToFunc_cases [of "Some 2" 3 "\<lambda>d::unit. 0" 2]
  by (simp add: defaultOr1_def orElse_def)

subsection \<open>The integrator\<close>

lemma positionNode_pinned:
  "node_fx n = JNum px \<Longrightarrow> node_fy n = JNum py \<Longrightarrow>
   positionNode vel s (i, n) = Inr (n\<lparr>node_x := px, node_y := py\<rparr>)"
  by (simp add: positionNode_def isNumber_def)

lemma positionNode_free:
  "\<not> (isNumber (node_fx n) \<and> isNumber (node_fy n)) \<Longrightarrow>
   positionNode vel s (i, n)
     = Inr (n\<lparr>node_x := node_x n + vel (2 * i) * s, node_y := node_y n + vel (2 * i + 1) * s\<rparr>)"
  by (auto simp add: positionNode_def Let_def)

lemma positionNode_fixed:
  assumes "positionNode vel s (i, n) = Inr n'"
  shows "node_fx n' = node_fx n" "node_fy n' = node_fy n" "node_id n' = node_id n"
  using assms
  by (auto simp add: positionNode_def Let_def split: if_splits jsval.splits)

lemma positionNode_returns:
  "finitePin n \<Longrightarrow> \<exists>n'. positionNode vel s (i, n) = Inr n'"
  by (auto simp add: positionNode_def finitePin_def nonFinite_def isNumber_def Let_def
           split: jsval.splits)

lemma length_updatePosition: "length (updatePosition vel s nodes) = length nodes"
  by (simp add: updatePosition_def)

lemma nth_updatePosition:
  "i < length nodes \<Longrightarrow> updatePosition vel s nodes ! i = positionNode vel s (i, nodes ! i)"
  by (simp add: updatePosition_def nth_enumerate_eq)

lemma collect_Inr:
  "collect xs = Inr ys \<Longrightarrow> length ys = length xs \<and> (\<forall>i < length xs. xs ! i = Inr (ys ! i))"
proof (induction xs arbitrary: ys)
  case Nil
  then show ?case by simp
next
  case (Cons x xs)
  from Cons.prems obtain a as where
    x: "x = Inr a" and as: "collect xs = Inr as" and ys: "ys = a # as"
    by (auto split: sum.splits)
  from Cons.IH [OF as] x ys show ?case
    by (auto simp: nth_Cons split: nat.splits)
qed

lemma collect_returns:
  "(\<And>x. x \<in> set xs \<Longrightarrow> \<exists>a. x = Inr a) \<Longrightarrow> \<exists>ys. collect xs = Inr ys"
proof (induction xs)
  case Nil
  then show ?case by simp
next
  case (Cons x xs)
  from Cons.prems [of x] obtain a where "x = Inr a" by auto
  moreover from Cons.IH Cons.prems obtain as where "collect xs = Inr as" by auto
  ultimately show ?case by simp
qed

lemma collect_all_Inr: "collect (map Inr ys) = Inr ys"
  by (induction ys) simp_all

lemma updatePosition_returns:
  assumes "\<forall>n \<in> set nodes. finitePin n"
  shows "\<exists>nodes'. collect (updatePosition vel s nodes) = Inr nodes'"
proof (rule collect_returns)
  fix x
  assume "x \<in> set (updatePosition vel s nodes)"
  then obtain i where i: "i < length nodes" and x: "x = positionNode vel s (i, nodes ! i)"
    by (auto simp: in_set_conv_nth length_updatePosition nth_updatePosition)
  from i assms have "finitePin (nodes ! i)" by simp
  from positionNode_returns [OF this] x show "\<exists>a. x = Inr a" by simp
qed

lemma runOneStep_shape:
  assumes "runOneStep self rnd edges iter (nodes, r) = Inr (nodes', prev, r')"
  shows "\<exists>acc. collect (updatePosition (updateVelocity self acc (\<lambda>k. 0) (stepIntervalOf self iter) nodes)
                                     (stepIntervalOf self iter) nodes) = Inr nodes'
         \<and> prev = map (\<lambda>n. (node_x n, node_y n)) nodes"
  using assms
  by (auto simp: runOneStep_def Let_def split: sum.splits prod.splits)

lemma runOneStep_nth:
  assumes "runOneStep self rnd edges iter (nodes, r) = Inr (nodes', prev, r')"
  shows "length nodes' = length nodes
         \<and> (\<exists>vel. \<forall>k < length nodes.
               positionNode vel (stepIntervalOf self iter) (k, nodes ! k) = Inr (nodes' ! k))"
proof -
  from runOneStep_shape [OF assms] obtain acc where
    c: "collect (updatePosition (updateVelocity self acc (\<lambda>k. 0) (stepIntervalOf self iter) nodes)
                                (stepIntervalOf self iter) nodes) = Inr nodes'"
    by blast
  from collect_Inr [OF c] show ?thesis
    by (auto simp: length_updatePosition nth_updatePosition)
qed

lemma runOneStep_length:
  "runOneStep self rnd edges iter (nodes, r) = Inr (nodes', prev, r') \<Longrightarrow>
   length nodes' = length nodes"
  by (auto dest!: runOneStep_nth)

lemma runOneStep_finitePin:
  assumes "runOneStep self rnd edges iter (nodes, r) = Inr (nodes', prev, r')"
      and "\<forall>n \<in> set nodes. finitePin n"
  shows "\<forall>n \<in> set nodes'. finitePin n"
proof
  fix n
  assume "n \<in> set nodes'"
  then obtain k where k: "k < length nodes'" and n: "n = nodes' ! k"
    by (auto simp: in_set_conv_nth)
  from runOneStep_nth [OF assms(1)] k obtain vel where
    len: "length nodes' = length nodes"
    and p: "positionNode vel (stepIntervalOf self iter) (k, nodes ! k) = Inr (nodes' ! k)"
    by auto
  from k len assms(2) have "finitePin (nodes ! k)" by simp
  with positionNode_fixed [OF p] n show "finitePin n"
    by (simp add: finitePin_def)
qed

lemma runOneStep_pinned:
  assumes "runOneStep self rnd edges iter (nodes, r) = Inr (nodes', prev, r')"
      and "k < length nodes"
      and "node_fx (nodes ! k) = JNum px" and "node_fy (nodes ! k) = JNum py"
  shows "length nodes' = length nodes
         \<and> node_fx (nodes' ! k) = JNum px \<and> node_fy (nodes' ! k) = JNum py
         \<and> node_x (nodes' ! k) = px \<and> node_y (nodes' ! k) = py"
proof -
  from runOneStep_nth [OF assms(1)] assms(2) obtain vel where
    len: "length nodes' = length nodes"
    and p: "positionNode vel (stepIntervalOf self iter) (k, nodes ! k) = Inr (nodes' ! k)"
    by auto
  from p positionNode_pinned [OF assms(3,4), of vel "stepIntervalOf self iter" k]
  have "nodes' ! k = (nodes ! k)\<lparr>node_x := px, node_y := py\<rparr>" by simp
  with len assms(3,4) show ?thesis by simp
qed

lemma syncLoop_pinned:
  assumes "syncLoop self rnd edges i (nodes, r) = Inr (nodes', r')"
      and "k < length nodes"
      and "node_fx (nodes ! k) = JNum px" and "node_fy (nodes ! k) = JNum py"
  shows "length nodes' = length nodes
         \<and> node_fx (nodes' ! k) = JNum px \<and> node_fy (nodes' ! k) = JNum py
         \<and> ((real i < maxIteration self \<or> (node_x (nodes ! k) = px \<and> node_y (nodes ! k) = py))
              \<longrightarrow> node_x (nodes' ! k) = px \<and> node_y (nodes' ! k) = py)"
  using assms
proof (induction self rnd edges i "(nodes, r)" arbitrary: nodes r rule: syncLoop.induct)
  case (1 self rnd edges i)
  show ?case
  proof (cases "real i < maxIteration self")
    case False
    with "1.prems" show ?thesis by simp
  next
    case True
    with "1.prems"(1) obtain nodes1 prev1 r1 where
      step: "runOneStep self rnd edges i (nodes, r) = Inr (nodes1, prev1, r1)"
      by (auto split: sum.splits)
    note pin = runOneStep_pinned [OF step "1.prems"(2-4)]
    show ?thesis
    proof (cases "reachMoveThreshold nodes1 prev1 (minMovement self)")
      case True
      with \<open>real i < maxIteration self\<close> step "1.prems"(1) have "nodes' = nodes1"
        by simp
      with pin show ?thesis by simp
    next
      case False
      with \<open>real i < maxIteration self\<close> step "1.prems"(1)
      have rec: "syncLoop self rnd edges (i + 1) (nodes1, r1) = Inr (nodes', r')"
        by simp
      from "1.hyps" [OF \<open>real i < maxIteration self\<close> step refl refl False rec] pin "1.prems"(2)
      show ?thesis by simp
    qed
  qed
qed

subsection \<open>Steps that return\<close>

lemma forEachE_returns:
  "(\<And>a s. a \<in> set xs \<Longrightarrow> \<exists>s'. f a s = Inr s') \<Longrightarrow> \<exists>s'. forEachE f xs s = Inr s'"
proof (induction xs arbitrary: s)
  case Nil
  then show ?case by simp
next
  case (Cons a xs)
  from Cons.prems [of a s] obtain s1 where "f a s = Inr s1" by auto
  moreover from Cons.IH [of s1] Cons.prems obtain s2 where "forEachE f xs s1 = Inr s2"
    by auto
  ultimately show ?case by simp
qed

lemma repulsivePair_returns:
  "preventOverlap self \<longrightarrow> nodeSize self \<noteq> None \<Longrightarrow>
   \<exists>st'. repulsivePair self rnd massi i ni jn st = Inr st'"
  by (cases jn; cases st) (auto simp: repulsivePair_def Let_def split: sizefun.splits)

lemma calRepulsive_returns:
  assumes "preventOverlap self \<longrightarrow> nodeSize self \<noteq> None"
  shows "\<exists>st'. calRepulsive self rnd nodes st = Inr st'"
  unfolding calRepulsive_def
proof (rule forEachE_returns)
  fix a :: "nat \<times> node" and s :: "buffer \<times> nat"
  obtain i ni where a: "a = (i, ni)" by (cases a)
  from forEachE_returns [of "enumerate 0 nodes" "repulsivePair self rnd (massOf self ni) i ni" s]
       repulsivePair_returns [OF assms]
  show "\<exists>s'. (case a of (i, ni) \<Rightarrow> \<lambda>st1. let massi = massOf self ni
             in forEachE (repulsivePair self rnd massi i ni) (enumerate 0 nodes) st1) s = Inr s'"
    by (simp add: a)
qed

lemma gravityNode_returns:
  "getCenter self = None \<Longrightarrow> \<exists>acc'. gravityNode self inode acc = Inr acc'"
  by (cases inode) (auto simp: gravityNode_def gravityOf_def Let_def)

lemma calGravity_returns:
  assumes "getCenter self = None"
  shows "\<exists>acc'. calGravity self nodes acc = Inr acc'"
  unfolding calGravity_def
  using assms by (intro forEachE_returns gravityNode_returns)

lemma attractiveEdge_returns:
  assumes "edgeResolves self (length nodes) e"
      and "(\<exists>sz. nodeSize self = Some (Sizes sz)) \<or> (\<forall>s t. linkDistance self e s t \<noteq> 0)"
  shows "\<exists>st'. attractiveEdge self rnd nodes e st = Inr st'"
proof -
  obtain acc r where st: "st = (acc, r)" by (cases st)
  from assms(1) obtain si ti where
    "nodeIdxMap self (edge_source e) = Some si" "si < length nodes"
    "nodeIdxMap self (edge_target e) = Some ti" "ti < length nodes"
    by (auto simp: edgeResolves_def split: option.splits)
  then have look: "nodeMap self nodes (edge_source e) = Some (nodes ! si)"
                  "nodeMap self nodes (edge_target e) = Some (nodes ! ti)"
    by (simp_all add: nodeMap_def)
  from assms(2) have "\<exists>len. idealLength self e (nodes ! si) (nodes ! ti) = Inr len"
    by (auto simp: idealLength_def Let_def)
  then obtain len where "idealLength self e (nodes ! si) (nodes ! ti) = Inr len"
    by blast
  with look show ?thesis
    by (simp add: attractiveEdge_def st getEdgeTerminal_def Let_def)
qed

lemma calAttractive_returns:
  assumes "\<forall>e \<in> set es. edgeResolves self (length nodes) e
                \<and> ((\<exists>sz. nodeSize self = Some (Sizes sz)) \<or> (\<forall>s t. linkDistance self e s t \<noteq> 0))"
  shows "\<exists>st'. calAttractive self rnd nodes es st = Inr st'"
  unfolding calAttractive_def
  using assms by (intro forEachE_returns attractiveEdge_returns) auto

lemma runOneStep_returns:
  assumes "preventOverlap self \<longrightarrow> nodeSize self \<noteq> None"
      and "getCenter self = None"
      and "\<forall>es. edges = Some es \<longrightarrow>
             (\<forall>e \<in> set es. edgeResolves self (length nodes) e
                \<and> ((\<exists>sz. nodeSize self = Some (Sizes sz)) \<or> (\<forall>s t. linkDistance self e s t \<noteq> 0)))"
      and "\<forall>n \<in> set nodes. finitePin n"
  shows "\<exists>nodes' prev r'. runOneStep self rnd edges iter (nodes, r) = Inr (nodes', prev, r')"
proof -
  from calRepulsive_returns [OF assms(1)] obtain st1 where
    rep: "calRepulsive self rnd nodes (\<lambda>k. 0, r) = Inr st1"
    by blast
  have "\<exists>acc2 r2. (case edges of None \<Rightarrow> Inr st1
                   | Some es \<Rightarrow> calAttractive self rnd nodes es st1) = Inr (acc2, r2)"
  proof (cases edges)
    case None
    then show ?thesis by (cases st1) simp
  next
    case (Some es)
    with assms(3) calAttractive_returns [of es self nodes rnd st1] show ?thesis
      by (metis option.simps(5) surj_pair)
  qed
  then obtain acc2 r2 where
    att: "(case edges of None \<Rightarrow> Inr st1
           | Some es \<Rightarrow> calAttractive self rnd nodes es st1) = Inr (acc2, r2)"
    by blast
  from calGravity_returns [OF assms(2)] obtain acc3 where
    grav: "calGravity self nodes acc2 = Inr acc3"
    by blast
  from updatePosition_returns [OF assms(4)] obtain nodes' where
    "collect (updatePosition (updateVelocity self acc3 (\<lambda>k. 0) (stepIntervalOf self iter) nodes)
                             (stepIntervalOf self iter) nodes) = Inr nodes'"
    by blast
  with rep att grav show ?thesis
    by (simp add: runOneStep_def Let_def)
qed

lemma syncLoop_returns:
  assumes "preventOverlap self \<longrightarrow> nodeSize self \<noteq> None"
      and "getCenter self = None"
      and "\<forall>es. edges = Some es \<longrightarrow>
             (\<forall>e \<in> set es. edgeResolves self n e
                \<and> ((\<exists>sz. nodeSize self = Some (Sizes sz)) \<or> (\<forall>s t. linkDistance self e s t \<noteq> 0)))"
      and "length nodes = n"
      and "\<forall>nd \<in> set nodes. finitePin nd"
  shows "\<exists>nodes' r'. syncLoop self rnd edges i (nodes, r) = Inr (nodes', r')"
  using assms
proof (induction self rnd edges i "(nodes, r)" arbitrary: nodes r rule: syncLoop.induct)
  case (1 self rnd edges i)
  show ?case
  proof (cases "real i < maxIteration self")
    case False
    then show ?thesis by simp
  next
    case True
    have "\<exists>nodes1 prev1 r1. runOneStep self rnd edges i (nodes, r) = Inr (nodes1, prev1, r1)"
    proof (rule runOneStep_returns)
      show "preventOverlap self \<longrightarrow> nodeSize self \<noteq> None" by (rule "1.prems"(1))
      show "getCenter self = None" by (rule "1.prems"(2))
      show "\<forall>es. edges = Some es \<longrightarrow>
             (\<forall>e \<in> set es. edgeResolves self (length nodes) e
                \<and> ((\<exists>sz. nodeSize self = Some (Sizes sz)) \<or> (\<forall>s t. linkDistance self e s t \<noteq> 0)))"
        unfolding "1.prems"(4) by (rule "1.prems"(3))
      show "\<forall>nd \<in> set nodes. finitePin nd" by (rule "1.prems"(5))
    qed
    then obtain nodes1 prev1 r1 where
      step: "runOneStep self rnd edges i (nodes, r) = Inr (nodes1, prev1, r1)"
      by blast
    show ?thesis
    proof (cases "reachMoveThreshold nodes1 prev1 (minMovement self)")
      case True
      with \<open>real i < maxIteration self\<close> step show ?thesis by simp
    next
      case False
      from runOneStep_length [OF step] "1.prems"(4) have len: "length nodes1 = n" by simp
      note pins = runOneStep_finitePin [OF step "1.prems"(5)]
      from "1.hyps" [OF True step refl refl False "1.prems"(1-3) len pins]
      show ?thesis using True step False by simp
    qed
  qed
qed

lemma intervalLoop_returns:
  assumes "preventOverlap self \<longrightarrow> nodeSize self \<noteq> None"
      and "getCenter self = None"
      and "\<forall>es. edges = Some es \<longrightarrow>
             (\<forall>e \<in> set es. edgeResolves self n e
                \<and> ((\<exists>sz. nodeSize self = Some (Sizes sz)) \<or> (\<forall>s t. linkDistance self e s t \<noteq> 0)))"
      and "length nodes = n"
      and "\<forall>nd \<in> set nodes. finitePin nd"
  shows "\<exists>out. intervalLoop self rnd edges i (nodes, r) fired = Inr out"
  using assms
proof (induction self rnd edges i "(nodes, r)" fired arbitrary: nodes r rule: intervalLoop.induct)
  case (1 self rnd edges iter fired)
  have "\<exists>nodes1 prev1 r1. runOneStep self rnd edges iter (nodes, r) = Inr (nodes1, prev1, r1)"
    proof (rule runOneStep_returns)
      show "preventOverlap self \<longrightarrow> nodeSize self \<noteq> None" by (rule "1.prems"(1))
      show "getCenter self = None" by (rule "1.prems"(2))
      show "\<forall>es. edges = Some es \<longrightarrow>
             (\<forall>e \<in> set es. edgeResolves self (length nodes) e
                \<and> ((\<exists>sz. nodeSize self = Some (Sizes sz)) \<or> (\<forall>s t. linkDistance self e s t \<noteq> 0)))"
        unfolding "1.prems"(4) by (rule "1.prems"(3))
      show "\<forall>nd \<in> set nodes. finitePin nd" by (rule "1.prems"(5))
    qed
  then obtain nodes1 prev1 r1 where
    step: "runOneStep self rnd edges iter (nodes, r) = Inr (nodes1, prev1, r1)"
    by blast
  let ?reached = "reachMoveThreshold nodes1 prev1 (minMovement self)"
  let ?exhausted = "maxIteration self \<le> real (iter + 1)"
  show ?case
  proof (cases "?reached \<or> ?exhausted")
    case True
    with step show ?thesis
      by (subst intervalLoop.simps) (auto simp: Let_def)
  next
    case False
    from runOneStep_length [OF step] "1.prems"(4) have len: "length nodes1 = n" by simp
    note pins = runOneStep_finitePin [OF step "1.prems"(5)]
    from False "1.hyps" [OF step refl refl refl refl refl refl refl _ "1.prems"(1-3) len pins]
    obtain out where
      "intervalLoop self rnd edges (iter + 1) (nodes1, r1) fired = Inr out"
      by auto
    with False step show ?thesis
      by (subst intervalLoop.simps) (auto simp: Let_def)
  qed
qed

subsection \<open>Pinned nodes\<close>

lemma intervalLoop_pinned:
  assumes "intervalLoop self rnd edges i (nodes, r) fired = Inr out"
      and "k < length nodes"
      and "node_fx (nodes ! k) = JNum px" and "node_fy (nodes ! k) = JNum py"
  shows "length (final_nodes out) = length nodes
         \<and> node_fx (final_nodes out ! k) = JNum px \<and> node_fy (final_nodes out ! k) = JNum py
         \<and> node_x (final_nodes out ! k) = px \<and> node_y (final_nodes out ! k) = py"
  using assms
proof (induction self rnd edges i "(nodes, r)" fired arbitrary: nodes r rule: intervalLoop.induct)
  case (1 self rnd edges iter fired)
  from "1.prems"(1) obtain nodes1 prev1 r1 where
    step: "runOneStep self rnd edges iter (nodes, r) = Inr (nodes1, prev1, r1)"
    by (subst (asm) intervalLoop.simps) (auto split: sum.splits)
  note pin = runOneStep_pinned [OF step "1.prems"(2-4)]
  let ?reached = "reachMoveThreshold nodes1 prev1 (minMovement self)"
  let ?exhausted = "maxIteration self \<le> real (iter + 1)"
  show ?case
  proof (cases "?reached \<or> ?exhausted")
    case True
    with step "1.prems"(1) have "final_nodes out = nodes1"
      by (subst (asm) intervalLoop.simps) (auto simp: Let_def)
    with pin show ?thesis by simp
  next
    case False
    let ?fired1 = "if ?reached then fired + 1 else fired"
    let ?fired2 = "if ?exhausted then ?fired1 + 1 else ?fired1"
    from False step "1.prems"(1)
    have rec: "intervalLoop self rnd edges (iter + 1) (nodes1, r1) ?fired2 = Inr out"
      by (subst (asm) intervalLoop.simps) (auto simp: Let_def)
    from "1.hyps" [OF step refl refl refl refl refl refl refl False rec] pin "1.prems"(2)
    show ?thesis by simp
  qed
qed

text \<open>
  C4: a node whose \<open>fx\<close> and \<open>fy\<close> are both finite numbers is put at \<open>(fx, fy)\<close> by
  the position update, whatever the velocity array holds; \<open>fx\<close> and \<open>fy\<close> are not changed.
  So it is at \<open>(fx, fy)\<close> after every step, after the synchronous loop (if that runs a
  step, or if the node started there) and after the timer loop, for any forces.
\<close>

theorem pinned_node_stays:
  assumes "k < length nodes"
      and "node_fx (nodes ! k) = JNum px" and "node_fy (nodes ! k) = JNum py"
  shows "(\<forall>vel s. updatePosition vel s nodes ! k = Inr ((nodes ! k)\<lparr>node_x := px, node_y := py\<rparr>))
       \<and> (\<forall>nodes' prev r'.
            runOneStep self rnd edges iter (nodes, r) = Inr (nodes', prev, r') \<longrightarrow>
            node_fx (nodes' ! k) = JNum px \<and> node_fy (nodes' ! k) = JNum py
            \<and> node_x (nodes' ! k) = px \<and> node_y (nodes' ! k) = py)
       \<and> (\<forall>nodes' r'.
            syncLoop self rnd edges i (nodes, r) = Inr (nodes', r') \<longrightarrow>
            node_fx (nodes' ! k) = JNum px \<and> node_fy (nodes' ! k) = JNum py
            \<and> ((real i < maxIteration self \<or> (node_x (nodes ! k) = px \<and> node_y (nodes ! k) = py))
                 \<longrightarrow> node_x (nodes' ! k) = px \<and> node_y (nodes' ! k) = py))
       \<and> (\<forall>out.
            intervalLoop self rnd edges i (nodes, r) fired = Inr out \<longrightarrow>
            node_fx (final_nodes out ! k) = JNum px \<and> node_fy (final_nodes out ! k) = JNum py
            \<and> node_x (final_nodes out ! k) = px \<and> node_y (final_nodes out ! k) = py)"
proof (intro conjI allI impI)
  fix vel s
  show "updatePosition vel s nodes ! k = Inr ((nodes ! k)\<lparr>node_x := px, node_y := py\<rparr>)"
    using assms by (simp add: nth_updatePosition positionNode_pinned)
next
  fix nodes' prev r'
  assume "runOneStep self rnd edges iter (nodes, r) = Inr (nodes', prev, r')"
  from runOneStep_pinned [OF this assms]
  show "node_fx (nodes' ! k) = JNum px" "node_fy (nodes' ! k) = JNum py"
       "node_x (nodes' ! k) = px" "node_y (nodes' ! k) = py"
    by simp_all
next
  fix nodes' r'
  assume loop: "syncLoop self rnd edges i (nodes, r) = Inr (nodes', r')"
  from syncLoop_pinned [OF loop assms]
  show "node_fx (nodes' ! k) = JNum px" "node_fy (nodes' ! k) = JNum py"
    by simp_all
  assume "real i < maxIteration self \<or> node_x (nodes ! k) = px \<and> node_y (nodes ! k) = py"
  with syncLoop_pinned [OF loop assms]
  show "node_x (nodes' ! k) = px" "node_y (nodes' ! k) = py"
    by simp_all
next
  fix out
  assume "intervalLoop self rnd edges i (nodes, r) fired = Inr out"
  from intervalLoop_pinned [OF this assms]
  show "node_fx (final_nodes out ! k) = JNum px" "node_fy (final_nodes out ! k) = JNum py"
       "node_x (final_nodes out ! k) = px" "node_y (final_nodes out ! k) = py"
    by simp_all
qed

lemma defaultLayout_steps:
  "preventOverlap defaultLayout \<longrightarrow> nodeSize defaultLayout \<noteq> None"
  "getCenter defaultLayout = None"
  "\<forall>es. None = Some es \<longrightarrow>
     (\<forall>e \<in> set es. edgeResolves defaultLayout n e
        \<and> ((\<exists>sz. nodeSize defaultLayout = Some (Sizes sz))
            \<or> (\<forall>s t. linkDistance defaultLayout e s t \<noteq> 0)))"
  by (simp_all add: defaultLayout_def)

lemma example_pins:
  "\<forall>n \<in> set [pinnedNode, freeNode]. finitePin n"
  by (simp add: finitePin_def nonFinite_def pinnedNode_def freeNode_def)

theorem pinned_node_stays_witness:
  "(0::nat) < length [pinnedNode, freeNode]
   \<and> node_fx ([pinnedNode, freeNode] ! 0) = JNum 5 \<and> node_fy ([pinnedNode, freeNode] ! 0) = JNum 7
   \<and> (\<exists>nodes' prev r'.
        runOneStep defaultLayout (\<lambda>k. 0) None 0 ([pinnedNode, freeNode], 0) = Inr (nodes', prev, r')
        \<and> node_x (nodes' ! 0) = 5 \<and> node_y (nodes' ! 0) = 7)
   \<and> (\<exists>nodes' r'.
        syncLoop defaultLayout (\<lambda>k. 0) None 0 ([pinnedNode, freeNode], 0) = Inr (nodes', r')
        \<and> real 0 < maxIteration defaultLayout
        \<and> node_x (nodes' ! 0) = 5 \<and> node_y (nodes' ! 0) = 7)
   \<and> (\<exists>out.
        intervalLoop defaultLayout (\<lambda>k. 0) None 0 ([pinnedNode, freeNode], 0) 0 = Inr out
        \<and> node_x (final_nodes out ! 0) = 5 \<and> node_y (final_nodes out ! 0) = 7)"
proof -
  let ?nodes = "[pinnedNode, freeNode]"
  have h: "(0::nat) < length ?nodes" "node_fx (?nodes ! 0) = JNum 5" "node_fy (?nodes ! 0) = JNum 7"
    by (simp_all add: pinnedNode_def)
  note inst = pinned_node_stays [OF h, of defaultLayout "\<lambda>k. 0" None 0 0 0 0]
  from runOneStep_returns [OF defaultLayout_steps(1) defaultLayout_steps(2) defaultLayout_steps(3)
                              example_pins]
  obtain n1 p1 r1 where
    a: "runOneStep defaultLayout (\<lambda>k. 0) None 0 (?nodes, 0) = Inr (n1, p1, r1)"
    by blast
  from syncLoop_returns [OF defaultLayout_steps(1) defaultLayout_steps(2) defaultLayout_steps(3) refl
                            example_pins]
  obtain n2 r2 where
    b: "syncLoop defaultLayout (\<lambda>k. 0) None 0 (?nodes, 0) = Inr (n2, r2)"
    by blast
  from intervalLoop_returns [OF defaultLayout_steps(1) defaultLayout_steps(2) defaultLayout_steps(3)
                                refl example_pins]
  obtain out where
    c: "intervalLoop defaultLayout (\<lambda>k. 0) None 0 (?nodes, 0) 0 = Inr out"
    by blast
  have m: "real 0 < maxIteration defaultLayout" by (simp add: defaultLayout_def)
  from inst a have "node_x (n1 ! 0) = 5 \<and> node_y (n1 ! 0) = 7" by blast
  moreover from inst b m have "node_x (n2 ! 0) = 5 \<and> node_y (n2 ! 0) = 7" by blast
  moreover from inst c have "node_x (final_nodes out ! 0) = 5 \<and> node_y (final_nodes out ! 0) = 7"
    by blast
  ultimately show ?thesis using h a b c m by blast
qed


text \<open>
  C10: a node with exactly one of \<open>fx\<close>, \<open>fy\<close> of type number is moved like a node
  without either: both coordinates advance by velocity times \<open>stepInterval\<close>, and the
  override is not read.
\<close>

theorem half_pinned_node_is_free:
  assumes "i < length nodes"
      and "isNumber (node_fx (nodes ! i)) \<noteq> isNumber (node_fy (nodes ! i))"
  shows "updatePosition velArray stepInterval nodes ! i
           = Inr ((nodes ! i)\<lparr>node_x := node_x (nodes ! i) + velArray (2 * i) * stepInterval,
                              node_y := node_y (nodes ! i) + velArray (2 * i + 1) * stepInterval\<rparr>)"
  using assms by (auto simp: nth_updatePosition positionNode_free)

theorem half_pinned_node_is_free_witness:
  "(1::nat) < length [freeNode, halfPinnedNode]
   \<and> isNumber (node_fx ([freeNode, halfPinnedNode] ! 1)) \<noteq> isNumber (node_fy ([freeNode, halfPinnedNode] ! 1))
   \<and> updatePosition (\<lambda>k. 10) 0.5 [freeNode, halfPinnedNode] ! 1
        = Inr (halfPinnedNode\<lparr>node_x := 6, node_y := 7\<rparr>)"
proof -
  have h: "(1::nat) < length [freeNode, halfPinnedNode]"
     "isNumber (node_fx ([freeNode, halfPinnedNode] ! 1)) \<noteq> isNumber (node_fy ([freeNode, halfPinnedNode] ! 1))"
    by (simp_all add: halfPinnedNode_def isNumber_def)
  from half_pinned_node_is_free [OF h, of "\<lambda>k. 10" "0.5"] h show ?thesis
    by (simp add: halfPinnedNode_def)
qed

subsection \<open>Gravity\<close>















subsection \<open>Attraction\<close>

lemma unit_direction:
  assumes "dx \<noteq> 0 \<or> dy \<noteq> (0::real)"
  shows "(dx / sqrt (dx * dx + dy * dy)) * (dx / sqrt (dx * dx + dy * dy))
         + (dy / sqrt (dx * dx + dy * dy)) * (dy / sqrt (dx * dx + dy * dy)) = 1"
    and "0 < sqrt (dx * dx + dy * dy)"
proof -
  define q where "q = dx * dx + dy * dy"
  have "0 < dx * dx \<or> 0 < dy * dy" using assms by (auto simp: zero_less_mult_iff)
  moreover have "0 \<le> dx * dx" "0 \<le> dy * dy" by simp_all
  ultimately have q: "0 < q" unfolding q_def by linarith
  then show "0 < sqrt (dx * dx + dy * dy)" unfolding q_def by simp
  have "(dx / sqrt q) * (dx / sqrt q) + (dy / sqrt q) * (dy / sqrt q)
          = (dx * dx + dy * dy) / (sqrt q * sqrt q)"
    by (simp add: add_divide_distrib)
  also have "\<dots> = q / q" using q by (simp add: q_def)
  also have "\<dots> = 1" using q by simp
  finally show "(dx / sqrt (dx * dx + dy * dy)) * (dx / sqrt (dx * dx + dy * dy))
         + (dy / sqrt (dx * dx + dy * dy)) * (dy / sqrt (dx * dx + dy * dy)) = 1"
    by (simp only: q_def)
qed

lemma idealLength_defined:
  "nodeSize self = Some (Sizes sz) \<Longrightarrow>
   idealLength self e s t
     = Inr (if linkDistance self e s t \<noteq> 0 then linkDistance self e s t
            else 1 + (sz s + sz t) / 2)"
  by (simp add: idealLength_def Let_def orElse_def)

lemma attractiveEdge_effect:
  assumes "nodeIdxMap self (edge_source e) = Some si" and "si < length nodes"
      and "nodeIdxMap self (edge_target e) = Some ti" and "ti < length nodes"
      and "node_x (nodes ! ti) \<noteq> node_x (nodes ! si) \<or> node_y (nodes ! ti) \<noteq> node_y (nodes ! si)"
      and "idealLength self e (nodes ! si) (nodes ! ti) = Inr len"
  defines "dx \<equiv> node_x (nodes ! ti) - node_x (nodes ! si)"
      and "dy \<equiv> node_y (nodes ! ti) - node_y (nodes ! si)"
  defines "vl \<equiv> sqrt (dx * dx + dy * dy)"
  defines "f \<equiv> (len - vl) * edgeStrength self e"
  shows "\<exists>acc'. attractiveEdge self rnd nodes e (acc, r) = Inr (acc', r)
           \<and> acc' (2 * si) = acc (2 * si) - (dx / vl * f) / massOf self (nodes ! si)
           \<and> acc' (2 * si + 1) = acc (2 * si + 1) - (dy / vl * f) / massOf self (nodes ! si)
           \<and> acc' (2 * ti) = acc (2 * ti) + (dx / vl * f) / massOf self (nodes ! ti)
           \<and> acc' (2 * ti + 1) = acc (2 * ti + 1) + (dy / vl * f) / massOf self (nodes ! ti)
           \<and> (\<forall>k. k \<noteq> 2 * si \<and> k \<noteq> 2 * si + 1 \<and> k \<noteq> 2 * ti \<and> k \<noteq> 2 * ti + 1 \<longrightarrow> acc' k = acc k)"
proof -
  from assms(5) have ne: "si \<noteq> ti" by auto
  then have idx: "2 * si \<noteq> 2 * ti" "2 * si \<noteq> 2 * ti + 1" "2 * si + 1 \<noteq> 2 * ti"
                 "2 * si + 1 \<noteq> 2 * ti + 1"
    by presburger+
  have look: "nodeMap self nodes (edge_source e) = Some (nodes ! si)"
             "nodeMap self nodes (edge_target e) = Some (nodes ! ti)"
    using assms(1-4) by (simp_all add: nodeMap_def)
  have nc: "\<not> (node_x (nodes ! ti) = node_x (nodes ! si)
               \<and> node_y (nodes ! ti) = node_y (nodes ! si))"
    using assms(5) by auto
  show ?thesis
    using look assms(1,3,6) idx
    by (simp add: attractiveEdge_def getEdgeTerminal_def Let_def subAtIdx_def addAtIdx_def
                  subAt_def addAt_def dx_def dy_def vl_def f_def nc)
qed

lemma dot_along:
  assumes "0 < vl" and "0 < (m::real)"
  shows "(dx / vl * f) / m * dx + (dy / vl * f) / m * dy = (f / (vl * m)) * (dx * dx + dy * dy)"
  using assms by (simp add: field_simps)

text \<open>
  C2 (amended): for an edge whose endpoints are at different positions, with
  \<open>diff = idealLength - distance\<close>, the source gets \<open>- diff * edgeStrength(edge)\<close>
  along the unit vector from source to target, divided by the mass of the source, and the
  target the opposite, divided by the mass of the target. With positive strength and
  masses, a positive \<open>diff\<close> (endpoints closer than the ideal length) accelerates each
  endpoint away from the other, a negative \<open>diff\<close> towards the other.
\<close>

theorem attraction_edge:
  assumes "nodeIdxMap self (edge_source e) = Some si" and "si < length nodes"
      and "nodeIdxMap self (edge_target e) = Some ti" and "ti < length nodes"
      and "node_x (nodes ! ti) \<noteq> node_x (nodes ! si) \<or> node_y (nodes ! ti) \<noteq> node_y (nodes ! si)"
      and "idealLength self e (nodes ! si) (nodes ! ti) = Inr len"
      and "0 < massOf self (nodes ! si)" and "0 < massOf self (nodes ! ti)"
      and "0 < edgeStrength self e"
  defines "dx \<equiv> node_x (nodes ! ti) - node_x (nodes ! si)"
      and "dy \<equiv> node_y (nodes ! ti) - node_y (nodes ! si)"
  defines "vl \<equiv> sqrt (dx * dx + dy * dy)"
  defines "diff \<equiv> len - vl"
  shows "(dx / vl) * (dx / vl) + (dy / vl) * (dy / vl) = 1
       \<and> (\<exists>acc'. attractiveEdge self rnd nodes e (acc, r) = Inr (acc', r)
           \<and> acc' (2 * si) = acc (2 * si) - (dx / vl * (diff * edgeStrength self e)) / massOf self (nodes ! si)
           \<and> acc' (2 * si + 1) = acc (2 * si + 1) - (dy / vl * (diff * edgeStrength self e)) / massOf self (nodes ! si)
           \<and> acc' (2 * ti) = acc (2 * ti) + (dx / vl * (diff * edgeStrength self e)) / massOf self (nodes ! ti)
           \<and> acc' (2 * ti + 1) = acc (2 * ti + 1) + (dy / vl * (diff * edgeStrength self e)) / massOf self (nodes ! ti)
           \<and> (0 < diff \<longrightarrow>
                 (acc' (2 * si) - acc (2 * si)) * dx + (acc' (2 * si + 1) - acc (2 * si + 1)) * dy < 0
                 \<and> 0 < (acc' (2 * ti) - acc (2 * ti)) * dx + (acc' (2 * ti + 1) - acc (2 * ti + 1)) * dy)
           \<and> (diff < 0 \<longrightarrow>
                 0 < (acc' (2 * si) - acc (2 * si)) * dx + (acc' (2 * si + 1) - acc (2 * si + 1)) * dy
                 \<and> (acc' (2 * ti) - acc (2 * ti)) * dx + (acc' (2 * ti + 1) - acc (2 * ti + 1)) * dy < 0))"
proof -
  have nz: "dx \<noteq> 0 \<or> dy \<noteq> 0" using assms(5) by (auto simp: dx_def dy_def)
  from unit_direction [OF nz]
  have unit: "(dx / vl) * (dx / vl) + (dy / vl) * (dy / vl) = 1" and vl: "0 < vl"
    by (simp_all only: vl_def)
  have q: "0 < dx * dx + dy * dy"
    using vl by (simp add: vl_def)
  let ?f = "diff * edgeStrength self e"
  let ?ms = "massOf self (nodes ! si)"
  let ?mt = "massOf self (nodes ! ti)"
  from attractiveEdge_effect [OF assms(1-6), of rnd acc r] obtain acc' where
    run: "attractiveEdge self rnd nodes e (acc, r) = Inr (acc', r)"
    and s0: "acc' (2 * si) = acc (2 * si) - (dx / vl * ?f) / ?ms"
    and s1: "acc' (2 * si + 1) = acc (2 * si + 1) - (dy / vl * ?f) / ?ms"
    and t0: "acc' (2 * ti) = acc (2 * ti) + (dx / vl * ?f) / ?mt"
    and t1: "acc' (2 * ti + 1) = acc (2 * ti + 1) + (dy / vl * ?f) / ?mt"
    unfolding dx_def dy_def vl_def diff_def by blast
  have e0: "acc' (2 * si) - acc (2 * si) = - ((dx / vl * ?f) / ?ms)"
    and e1: "acc' (2 * si + 1) - acc (2 * si + 1) = - ((dy / vl * ?f) / ?ms)"
    and e2: "acc' (2 * ti) - acc (2 * ti) = (dx / vl * ?f) / ?mt"
    and e3: "acc' (2 * ti + 1) - acc (2 * ti + 1) = (dy / vl * ?f) / ?mt"
    by (simp_all only: s0 s1 t0 t1 diff_diff_eq2 add_diff_cancel_left' diff_self diff_0 
                       add_diff_cancel_left diff_add_cancel minus_diff_eq) 
  have ds: "(acc' (2 * si) - acc (2 * si)) * dx + (acc' (2 * si + 1) - acc (2 * si + 1)) * dy
              = - ((?f / (vl * ?ms)) * (dx * dx + dy * dy))"
    unfolding e0 e1 using dot_along [OF vl assms(7), of dx ?f dy]
    by (simp only: mult_minus_left minus_add_distrib [symmetric])
  have dt: "(acc' (2 * ti) - acc (2 * ti)) * dx + (acc' (2 * ti + 1) - acc (2 * ti + 1)) * dy
              = (?f / (vl * ?mt)) * (dx * dx + dy * dy)"
    unfolding e2 e3 using dot_along [OF vl assms(8), of dx ?f dy] .
  have pos: "0 < (?f / (vl * m)) * (dx * dx + dy * dy)" if "0 < diff" "0 < m" for m
    using that vl q assms(9) by (intro mult_pos_pos divide_pos_pos) simp_all
  have neg: "(?f / (vl * m)) * (dx * dx + dy * dy) < 0" if "diff < 0" "0 < m" for m
  proof -
    have "?f < 0" using that(1) assms(9) by (simp add: mult_neg_pos)
    moreover have "0 < vl * m" using vl that(2) by simp
    ultimately have "?f / (vl * m) < 0" by (simp add: divide_neg_pos)
    then show ?thesis using q by (rule mult_neg_pos)
  qed
  have push: "0 < diff \<longrightarrow>
      (acc' (2 * si) - acc (2 * si)) * dx + (acc' (2 * si + 1) - acc (2 * si + 1)) * dy < 0
      \<and> 0 < (acc' (2 * ti) - acc (2 * ti)) * dx + (acc' (2 * ti + 1) - acc (2 * ti + 1)) * dy"
    using pos [OF _ assms(7)] pos [OF _ assms(8)] unfolding ds dt by auto
  have pull: "diff < 0 \<longrightarrow>
      0 < (acc' (2 * si) - acc (2 * si)) * dx + (acc' (2 * si + 1) - acc (2 * si + 1)) * dy
      \<and> (acc' (2 * ti) - acc (2 * ti)) * dx + (acc' (2 * ti + 1) - acc (2 * ti + 1)) * dy < 0"
    using neg [OF _ assms(7)] neg [OF _ assms(8)] unfolding ds dt by auto
  from unit run s0 s1 t0 t1 push pull show ?thesis by blast
qed

text \<open>
  C2, as stated, fails: the source is at \<open>x = 0\<close>, the target at \<open>x = 1\<close>, the ideal
  length is 3, so \<open>diff = 2\<close> is positive; the source is accelerated by \<open>- 400\<close> along
  \<open>x\<close>, away from the target, and the target by \<open>400\<close>, away from the source.
\<close>

theorem attraction_positive_diff_counterexample:
  "idealLength springLayout edgeAB nodeA nodeB = Inr 3
   \<and> sqrt ((node_x nodeB - node_x nodeA) * (node_x nodeB - node_x nodeA)
            + (node_y nodeB - node_y nodeA) * (node_y nodeB - node_y nodeA)) = 1
   \<and> bufferAt (calAttractive springLayout exampleRnd [nodeA, nodeB] [edgeAB] (zeroBuffer, 0)) 0
        = Some (- 400)
   \<and> bufferAt (calAttractive springLayout exampleRnd [nodeA, nodeB] [edgeAB] (zeroBuffer, 0)) 2
        = Some 400"
  by (simp add: idealLength_def springLayout_def defaultLayout_def edgeAB_def nodeA_def nodeB_def
                bufferAt_def calAttractive_def attractiveEdge_def getEdgeTerminal_def nodeMap_def
                massOf_def subAtIdx_def addAtIdx_def subAt_def addAt_def zeroBuffer_def Let_def)

theorem attraction_edge_witness:
  "nodeIdxMap springLayout (edge_source edgeAB) = Some 0 \<and> (0::nat) < length [nodeA, nodeB]
   \<and> nodeIdxMap springLayout (edge_target edgeAB) = Some 1 \<and> (1::nat) < length [nodeA, nodeB]
   \<and> node_x ([nodeA, nodeB] ! 1) \<noteq> node_x ([nodeA, nodeB] ! 0)
   \<and> idealLength springLayout edgeAB ([nodeA, nodeB] ! 0) ([nodeA, nodeB] ! 1) = Inr 3
   \<and> 0 < massOf springLayout ([nodeA, nodeB] ! 0) \<and> 0 < massOf springLayout ([nodeA, nodeB] ! 1)
   \<and> 0 < edgeStrength springLayout edgeAB
   \<and> (\<exists>acc'. attractiveEdge springLayout exampleRnd [nodeA, nodeB] edgeAB (zeroBuffer, 0)
                 = Inr (acc', 0)
         \<and> acc' 0 = - 400 \<and> acc' 1 = 0 \<and> acc' 2 = 400 \<and> acc' 3 = 0)"
proof -
  let ?nodes = "[nodeA, nodeB]"
  have h: "nodeIdxMap springLayout (edge_source edgeAB) = Some 0" "(0::nat) < length ?nodes"
          "nodeIdxMap springLayout (edge_target edgeAB) = Some 1" "(1::nat) < length ?nodes"
          "node_x (?nodes ! 1) \<noteq> node_x (?nodes ! 0) \<or> node_y (?nodes ! 1) \<noteq> node_y (?nodes ! 0)"
          "idealLength springLayout edgeAB (?nodes ! 0) (?nodes ! 1) = Inr 3"
          "0 < massOf springLayout (?nodes ! 0)" "0 < massOf springLayout (?nodes ! 1)"
          "0 < edgeStrength springLayout edgeAB"
    by (simp_all add: springLayout_def defaultLayout_def edgeAB_def nodeA_def nodeB_def
                      idealLength_def massOf_def)
  have v: "node_x (?nodes ! 1) - node_x (?nodes ! 0) = 1" "node_y (?nodes ! 1) - node_y (?nodes ! 0) = 0"
          "massOf springLayout (?nodes ! 0) = 1" "massOf springLayout (?nodes ! 1) = 1"
          "edgeStrength springLayout edgeAB = 200"
    by (simp_all add: springLayout_def defaultLayout_def nodeA_def nodeB_def massOf_def)
  from attraction_edge [OF h, of exampleRnd zeroBuffer 0]
  obtain acc' where
    "attractiveEdge springLayout exampleRnd ?nodes edgeAB (zeroBuffer, 0) = Inr (acc', 0)"
    "acc' 0 = - 400" "acc' 1 = 0" "acc' 2 = 400" "acc' 3 = 0"
    unfolding v by (auto simp: zeroBuffer_def)
  moreover have "node_x (?nodes ! 1) \<noteq> node_x (?nodes ! 0)"
    by (simp add: nodeA_def nodeB_def)
  ultimately show ?thesis using h(1-4,6-9) by blast
qed

subsection \<open>The ideal length without a size function\<close>

lemma attractiveEdge_undefined_nodeSize:
  assumes "nodeMap self nodes (edge_source e) = Some s"
      and "nodeMap self nodes (edge_target e) = Some t"
      and "linkDistance self e s t = 0"
      and "nodeSize self = None"
  shows "attractiveEdge self rnd nodes e st = Inl TypeError"
  using assms
  by (cases st) (simp add: attractiveEdge_def getEdgeTerminal_def idealLength_def Let_def)

lemma runOneStep_undefined_nodeSize:
  assumes "\<not> preventOverlap self"
      and "nodeMap self nodes (edge_source e) = Some s"
      and "nodeMap self nodes (edge_target e) = Some t"
      and "linkDistance self e s t = 0"
      and "nodeSize self = None"
  shows "runOneStep self rnd (Some (e # es)) iter (nodes, r) = Inl TypeError"
proof -
  from assms(1) have "preventOverlap self \<longrightarrow> nodeSize self \<noteq> None" by simp
  from calRepulsive_returns [OF this] obtain st1 where
    "calRepulsive self rnd nodes (\<lambda>k. 0, r) = Inr st1"
    by blast
  with attractiveEdge_undefined_nodeSize [OF assms(2-5)] show ?thesis
    by (simp add: runOneStep_def calAttractive_def)
qed

text \<open>
  C9 holds where \<open>nodeSize\<close> is a function that returns numbers
  (\<open>idealLength_defined\<close>). With overlap
  prevention switched off, \<open>execute\<close> leaves \<open>nodeSize\<close> undefined; a link-distance
  callback that returns 0 then makes \<open>calAttractive\<close> call it, and the run ends with a
  TypeError instead of the ideal length \<open>1 + (size + size) / 2\<close>.
\<close>

theorem zero_linkDistance_without_nodeSize_throws:
  "execute None zeroLinkConfig noOverlapLayout exampleRnd (Some [rawA, rawB]) (Some [edgeAB])
     = Inl TypeError"
proof -
  let ?self = "noOverlapLayout
        \<lparr>center := (150, 150),
         nodeIdxMap := buildIdxMap [nodeA, nodeB],
         linkDistance := (\<lambda>e s t. proccessToFunc (cfg_linkDistance zeroLinkConfig) (Some 1) (e, s, t)),
         nodeStrength := proccessToFunc (cfg_nodeStrength zeroLinkConfig) (Some 1),
         edgeStrength := proccessToFunc (cfg_edgeStrength zeroLinkConfig) (Some 1),
         nodeSize := nodeSizeFunc (preventOverlap noOverlapLayout) (cfg_nodeSize zeroLinkConfig)
                       (cfg_nodeSpacing zeroLinkConfig),
         degrees := cfg_degrees zeroLinkConfig,
         getMass := (case getMass noOverlapLayout of
                       None \<Rightarrow> Some (cfg_degreeMass zeroLinkConfig)
                     | Some g \<Rightarrow> Some g)\<rparr>"
  have seed: "seedNodes exampleRnd 300 300 [rawA, rawB] 0 = Inr ([nodeA, nodeB], 0)"
    by (simp add: seedNode_def seedCoord_def rawA_def rawB_def nodeA_def nodeB_def isNumber_def)
  have ex: "execute None zeroLinkConfig noOverlapLayout exampleRnd (Some [rawA, rawB]) (Some [edgeAB])
              = run None ?self exampleRnd (Some [edgeAB]) (Some [nodeA, nodeB]) 0"
  proof -
    have c: "cfg_width zeroLinkConfig = 300" "cfg_height zeroLinkConfig = 300"
            "cfg_center zeroLinkConfig = None"
      by (simp_all add: zeroLinkConfig_def)
    show ?thesis
      by (simp add: execute_def c seed Let_def del: seedNodes.simps)
  qed
  have idx: "nodeMap ?self [nodeA, nodeB] (edge_source edgeAB) = Some nodeA"
            "nodeMap ?self [nodeA, nodeB] (edge_target edgeAB) = Some nodeB"
    by (simp_all add: nodeMap_def buildIdxMap_def edgeAB_def nodeA_def nodeB_def)
  have facts: "\<not> preventOverlap ?self" "linkDistance ?self edgeAB nodeA nodeB = 0"
              "nodeSize ?self = None"
    by (simp_all add: noOverlapLayout_def defaultLayout_def zeroLinkConfig_def
                      proccessToFunc_def falsyCfg_def isNumberCfg_def nodeSizeFunc_def)
  have step: "runOneStep ?self exampleRnd (Some [edgeAB]) 0 ([nodeA, nodeB], 0) = Inl TypeError"
    by (rule runOneStep_undefined_nodeSize [OF facts(1) idx facts(2,3)])
  have mode: "workerEnabled ?self \<or> \<not> animate ?self" "real 0 < maxIteration ?self"
    by (simp_all add: noOverlapLayout_def defaultLayout_def)
  have "syncLoop ?self exampleRnd (Some [edgeAB]) 0 ([nodeA, nodeB], 0) = Inl TypeError"
    using step mode(2) by (subst syncLoop.simps) simp
  with mode(1) have "run None ?self exampleRnd (Some [edgeAB]) (Some [nodeA, nodeB]) 0 = Inl TypeError"
    by (simp add: run_def)
  with ex show ?thesis by simp
qed

subsection \<open>The completion callback\<close>







lemma updatePosition_in_place:
  assumes "\<forall>n \<in> set nodes. node_fx n = JNum (node_x n) \<and> node_fy n = JNum (node_y n)"
  shows "updatePosition vel s nodes = map Inr nodes"
proof (rule nth_equalityI)
  show "length (updatePosition vel s nodes) = length (map Inr nodes)"
    by (simp add: length_updatePosition)
next
  fix i
  assume "i < length (updatePosition vel s nodes)"
  then have i: "i < length nodes" by (simp add: length_updatePosition)
  with assms have "node_fx (nodes ! i) = JNum (node_x (nodes ! i))"
                  "node_fy (nodes ! i) = JNum (node_y (nodes ! i))"
    by simp_all
  with i show "updatePosition vel s nodes ! i = map Inr nodes ! i"
    by (simp add: nth_updatePosition positionNode_pinned)
qed

lemma movement_zero:
  "fold (\<lambda>(n, p) m. let vx = node_x n - fst p; vy = node_y n - snd p
                      in m + sqrt (vx * vx + vy * vy))
        (zip nodes (map (\<lambda>n. (node_x n, node_y n)) nodes)) a = a"
  by (induction nodes arbitrary: a) simp_all

lemma reachMoveThreshold_in_place:
  "nodes \<noteq> [] \<Longrightarrow>
   reachMoveThreshold nodes (map (\<lambda>n. (node_x n, node_y n)) nodes) minMove \<longleftrightarrow> 0 < minMove"
  by (simp add: reachMoveThreshold_def movement_zero)

lemma runOneStep_in_place:
  assumes "\<forall>n \<in> set nodes. node_fx n = JNum (node_x n) \<and> node_fy n = JNum (node_y n)"
      and "runOneStep self rnd edges iter (nodes, r) = Inr (nodes', prev, r')"
  shows "nodes' = nodes" "prev = map (\<lambda>n. (node_x n, node_y n)) nodes"
  using runOneStep_shape [OF assms(2)] updatePosition_in_place [OF assms(1)]
  by (auto simp: collect_all_Inr)

lemma intervalLoop_double_fire:
  assumes "\<forall>n \<in> set nodes. node_fx n = JNum (node_x n) \<and> node_fy n = JNum (node_y n)"
      and "runOneStep self rnd edges iter (nodes, r) = Inr (nodes', prev, r')"
      and "0 < minMovement self"
      and "maxIteration self \<le> real (iter + 1)"
      and "nodes \<noteq> []"
  shows "intervalLoop self rnd edges iter (nodes, r) fired
           = Inr \<lparr>final_nodes = nodes, layoutEnds = fired + 2\<rparr>"
proof -
  note same = runOneStep_in_place [OF assms(1,2)]
  with assms(3,5) have "reachMoveThreshold nodes' prev (minMovement self)"
    by (simp add: reachMoveThreshold_in_place)
  with assms(2,4) same show ?thesis
    by (subst intervalLoop.simps) (simp add: Let_def)
qed

lemma intervalLoop_single_fire:
  assumes "\<forall>n \<in> set nodes. node_fx n = JNum (node_x n) \<and> node_fy n = JNum (node_y n)"
      and "runOneStep self rnd edges iter (nodes, r) = Inr (nodes', prev, r')"
      and "0 < minMovement self"
      and "real (iter + 1) < maxIteration self"
      and "nodes \<noteq> []"
  shows "intervalLoop self rnd edges iter (nodes, r) fired
           = Inr \<lparr>final_nodes = nodes, layoutEnds = fired + 1\<rparr>"
proof -
  note same = runOneStep_in_place [OF assms(1,2)]
  with assms(3,5) have "reachMoveThreshold nodes' prev (minMovement self)"
    by (simp add: reachMoveThreshold_in_place)
  with assms(2,4) same show ?thesis
    by (subst intervalLoop.simps) (simp add: Let_def)
qed

text \<open>
  The timer on two nodes that are pinned where they are, with one iteration allowed: the
  first tick reaches the movement threshold and calls \<open>onLayoutEnd\<close>, then counts the
  iteration, finds the budget used up and calls it again.
\<close>

lemma timer_fires_twice:
  "execute (Some (1024, 768)) defaultConfig (defaultLayout\<lparr>maxIteration := 1\<rparr>) exampleRnd
     (Some [rawP, rawQ]) None
     = Inr \<lparr>final_nodes = [nodeP, nodeQ], layoutEnds = 2\<rparr>"
proof -
  let ?base = "defaultLayout\<lparr>maxIteration := 1\<rparr>"
  let ?self = "?base
        \<lparr>center := (150, 150),
         nodeIdxMap := buildIdxMap [nodeP, nodeQ],
         linkDistance := (\<lambda>e s t. proccessToFunc (cfg_linkDistance defaultConfig) (Some 1) (e, s, t)),
         nodeStrength := proccessToFunc (cfg_nodeStrength defaultConfig) (Some 1),
         edgeStrength := proccessToFunc (cfg_edgeStrength defaultConfig) (Some 1),
         nodeSize := nodeSizeFunc (preventOverlap ?base) (cfg_nodeSize defaultConfig)
                       (cfg_nodeSpacing defaultConfig),
         degrees := cfg_degrees defaultConfig,
         getMass := (case getMass ?base of
                       None \<Rightarrow> Some (cfg_degreeMass defaultConfig)
                     | Some g \<Rightarrow> Some g)\<rparr>"
  have seed: "seedNodes exampleRnd 300 300 [rawP, rawQ] 0 = Inr ([nodeP, nodeQ], 0)"
    by (simp add: seedNode_def seedCoord_def rawP_def rawQ_def nodeP_def nodeQ_def isNumber_def)
  have c: "cfg_width defaultConfig = 300" "cfg_height defaultConfig = 300"
          "cfg_center defaultConfig = None"
    by (simp_all add: defaultConfig_def)
  have gm: "getMass defaultLayout = None"
    by (simp add: defaultLayout_def)
  have ex: "execute (Some (1024, 768)) defaultConfig ?base exampleRnd (Some [rawP, rawQ]) None
              = run (Some (1024, 768)) ?self exampleRnd None (Some [nodeP, nodeQ]) 0"
    by (simp add: execute_def c seed gm Let_def del: seedNodes.simps)
  have ok: "preventOverlap ?self \<longrightarrow> nodeSize ?self \<noteq> None"
           "getCenter ?self = None"
           "\<forall>es. None = Some es \<longrightarrow>
              (\<forall>e \<in> set es. edgeResolves ?self (length [nodeP, nodeQ]) e
                 \<and> ((\<exists>sz. nodeSize ?self = Some (Sizes sz))
                     \<or> (\<forall>s t. linkDistance ?self e s t \<noteq> 0)))"
           "\<forall>nd \<in> set [nodeP, nodeQ]. finitePin nd"
    by (simp_all add: defaultLayout_def nodeSizeFunc_def defaultConfig_def finitePin_def
                      nonFinite_def nodeP_def nodeQ_def)
  from runOneStep_returns [OF ok] obtain nodes' prev r' where
    step: "runOneStep ?self exampleRnd None 0 ([nodeP, nodeQ], 0) = Inr (nodes', prev, r')"
    by blast
  have pinned: "\<forall>n \<in> set [nodeP, nodeQ]. node_fx n = JNum (node_x n) \<and> node_fy n = JNum (node_y n)"
    by (simp add: nodeP_def nodeQ_def)
  have lim: "0 < minMovement ?self" "maxIteration ?self \<le> real (0 + 1)" "[nodeP, nodeQ] \<noteq> []"
    by (simp_all add: defaultLayout_def)
  have mode: "\<not> (workerEnabled ?self \<or> \<not> animate ?self)"
    by (simp add: defaultLayout_def)
  from intervalLoop_double_fire [OF pinned step lim, of 0] mode
  have "run (Some (1024, 768)) ?self exampleRnd None (Some [nodeP, nodeQ]) 0
          = Inr \<lparr>final_nodes = [nodeP, nodeQ], layoutEnds = 2\<rparr>"
    by (simp add: run_def)
  with ex show ?thesis by simp
qed

text \<open>
  The same two nodes with the default budget of 500 iterations: the first tick reaches
  the movement threshold, the budget is not used up, and \<open>onLayoutEnd\<close> is called once.
\<close>

lemma timer_fires_once:
  "execute (Some (1024, 768)) defaultConfig defaultLayout exampleRnd (Some [rawP, rawQ]) None
     = Inr \<lparr>final_nodes = [nodeP, nodeQ], layoutEnds = 1\<rparr>"
proof -
  let ?self = "defaultLayout
        \<lparr>center := (150, 150),
         nodeIdxMap := buildIdxMap [nodeP, nodeQ],
         linkDistance := (\<lambda>e s t. proccessToFunc (cfg_linkDistance defaultConfig) (Some 1) (e, s, t)),
         nodeStrength := proccessToFunc (cfg_nodeStrength defaultConfig) (Some 1),
         edgeStrength := proccessToFunc (cfg_edgeStrength defaultConfig) (Some 1),
         nodeSize := nodeSizeFunc (preventOverlap defaultLayout) (cfg_nodeSize defaultConfig)
                       (cfg_nodeSpacing defaultConfig),
         degrees := cfg_degrees defaultConfig,
         getMass := (case getMass defaultLayout of
                       None \<Rightarrow> Some (cfg_degreeMass defaultConfig)
                     | Some g \<Rightarrow> Some g)\<rparr>"
  have seed: "seedNodes exampleRnd 300 300 [rawP, rawQ] 0 = Inr ([nodeP, nodeQ], 0)"
    by (simp add: seedNode_def seedCoord_def rawP_def rawQ_def nodeP_def nodeQ_def isNumber_def)
  have c: "cfg_width defaultConfig = 300" "cfg_height defaultConfig = 300"
          "cfg_center defaultConfig = None"
    by (simp_all add: defaultConfig_def)
  have ex: "execute (Some (1024, 768)) defaultConfig defaultLayout exampleRnd (Some [rawP, rawQ]) None
              = run (Some (1024, 768)) ?self exampleRnd None (Some [nodeP, nodeQ]) 0"
    by (simp add: execute_def c seed Let_def del: seedNodes.simps)
  have ok: "preventOverlap ?self \<longrightarrow> nodeSize ?self \<noteq> None"
           "getCenter ?self = None"
           "\<forall>es. None = Some es \<longrightarrow>
              (\<forall>e \<in> set es. edgeResolves ?self (length [nodeP, nodeQ]) e
                 \<and> ((\<exists>sz. nodeSize ?self = Some (Sizes sz))
                     \<or> (\<forall>s t. linkDistance ?self e s t \<noteq> 0)))"
           "\<forall>nd \<in> set [nodeP, nodeQ]. finitePin nd"
    by (simp_all add: defaultLayout_def nodeSizeFunc_def defaultConfig_def finitePin_def
                      nonFinite_def nodeP_def nodeQ_def)
  from runOneStep_returns [OF ok] obtain nodes' prev r' where
    step: "runOneStep ?self exampleRnd None 0 ([nodeP, nodeQ], 0) = Inr (nodes', prev, r')"
    by blast
  have pinned: "\<forall>n \<in> set [nodeP, nodeQ]. node_fx n = JNum (node_x n) \<and> node_fy n = JNum (node_y n)"
    by (simp add: nodeP_def nodeQ_def)
  have lim: "0 < minMovement ?self" "real (0 + 1) < maxIteration ?self" "[nodeP, nodeQ] \<noteq> []"
    by (simp_all add: defaultLayout_def)
  have mode: "\<not> (workerEnabled ?self \<or> \<not> animate ?self)"
    by (simp add: defaultLayout_def)
  from intervalLoop_single_fire [OF pinned step lim, of 0] mode
  have "run (Some (1024, 768)) ?self exampleRnd None (Some [nodeP, nodeQ]) 0
          = Inr \<lparr>final_nodes = [nodeP, nodeQ], layoutEnds = 1\<rparr>"
    by (simp add: run_def)
  with ex show ?thesis by simp
qed

subsection \<open>Repulsion\<close>
lemma vlen_opposite: "vlen (opposite v) = vlen v"
  by (simp add: vlen_def opposite_def)

lemma unitOf_opposite:
  "fst (unitOf (opposite v)) = - fst (unitOf v)" "snd (unitOf (opposite v)) = - snd (unitOf v)"
  by (simp_all add: unitOf_def vlen_opposite) (simp_all add: opposite_def)

lemma meanStrength_sym: "meanStrength self nj ni = meanStrength self ni nj"
  by (simp add: meanStrength_def add.commute)

lemma overlapAt_sym: "overlapAt self nj ni (opposite v) = overlapAt self ni nj v"
  by (simp add: overlapAt_def vlen_opposite add.commute split: option.splits sizefun.splits)

lemma baseAlong_opposite:
  "fst (baseAlong self nj ni (opposite v)) = - fst (baseAlong self ni nj v)"
  "snd (baseAlong self nj ni (opposite v)) = - snd (baseAlong self ni nj v)"
  by (simp_all add: baseAlong_def Let_def vlen_opposite meanStrength_sym [of self nj ni]
                    unitOf_opposite)

lemma collisionAlong_opposite:
  "fst (collisionAlong self nj ni (opposite v))
     = (if overlapAt self ni nj v
        then - (collideStrength self * meanStrength self ni nj / (vlen v * vlen v)
                  * fst (unitOf v) / massOf self nj)
        else 0)"
  "snd (collisionAlong self nj ni (opposite v))
     = (if overlapAt self ni nj v
        then - (collideStrength self * meanStrength self ni nj / (vlen v * vlen v)
                  * snd (unitOf v) / massOf self nj)
        else 0)"
  by (simp_all add: collisionAlong_def Let_def vlen_opposite meanStrength_sym [of self nj ni]
                    unitOf_opposite overlapAt_sym)

lemma repulsivePair_skip:
  "j \<le> i \<Longrightarrow> repulsivePair self rnd massi i ni (j, nj) st = Inr st"
  by (cases st) (simp add: repulsivePair_def)

lemma pairDelta_explicit:
  assumes "i < j"
  shows "pairDelta self (vx, vy) i ni j nj k
     = (let d = sqrt (vx * vx + vy * vy);
            ux = vx / d;
            uy = vy / d;
            param = (((nodeStrength self ni + nodeStrength self nj) * 0.5) * factor self)
                      / (((d + 0.1) * coulombDisScale self) * ((d + 0.1) * coulombDisScale self));
            po = collideStrength self * (nodeStrength self ni + nodeStrength self nj) * 0.5 / (d * d);
            ov = overlapAt self ni nj (vx, vy)
        in if k = 2 * i then ux * param + (if ov then (ux * po) / massOf self ni else 0)
           else if k = 2 * i + 1 then uy * param + (if ov then (uy * po) / massOf self ni else 0)
           else if k = 2 * j then - (ux * param) - (if ov then (ux * po) / massOf self nj else 0)
           else if k = 2 * j + 1 then - (uy * param) - (if ov then (uy * po) / massOf self nj else 0)
           else 0)"
proof -
  let ?v = "(vx, vy)"
  have base: "fst (baseAlong self ni nj ?v)
                = vx / sqrt (vx * vx + vy * vy)
                  * ((((nodeStrength self ni + nodeStrength self nj) * 0.5) * factor self)
                      / (((sqrt (vx * vx + vy * vy) + 0.1) * coulombDisScale self)
                         * ((sqrt (vx * vx + vy * vy) + 0.1) * coulombDisScale self)))"
             "snd (baseAlong self ni nj ?v)
                = vy / sqrt (vx * vx + vy * vy)
                  * ((((nodeStrength self ni + nodeStrength self nj) * 0.5) * factor self)
                      / (((sqrt (vx * vx + vy * vy) + 0.1) * coulombDisScale self)
                         * ((sqrt (vx * vx + vy * vy) + 0.1) * coulombDisScale self)))"
    by (simp_all add: baseAlong_def Let_def unitOf_def vlen_def meanStrength_def mult_ac)
  have ci: "fst (collisionAlong self ni nj ?v)
              = (if overlapAt self ni nj ?v
                 then (vx / sqrt (vx * vx + vy * vy)
                        * (collideStrength self * (nodeStrength self ni + nodeStrength self nj) * 0.5
                            / (sqrt (vx * vx + vy * vy) * sqrt (vx * vx + vy * vy))))
                      / massOf self ni
                 else 0)"
           "snd (collisionAlong self ni nj ?v)
              = (if overlapAt self ni nj ?v
                 then (vy / sqrt (vx * vx + vy * vy)
                        * (collideStrength self * (nodeStrength self ni + nodeStrength self nj) * 0.5
                            / (sqrt (vx * vx + vy * vy) * sqrt (vx * vx + vy * vy))))
                      / massOf self ni
                 else 0)"
    by (simp_all add: collisionAlong_def Let_def unitOf_def vlen_def meanStrength_def mult_ac)
  have cj: "fst (collisionAlong self nj ni (opposite ?v))
              = (if overlapAt self ni nj ?v
                 then - ((vx / sqrt (vx * vx + vy * vy)
                        * (collideStrength self * (nodeStrength self ni + nodeStrength self nj) * 0.5
                            / (sqrt (vx * vx + vy * vy) * sqrt (vx * vx + vy * vy))))
                      / massOf self nj)
                 else 0)"
           "snd (collisionAlong self nj ni (opposite ?v))
              = (if overlapAt self ni nj ?v
                 then - ((vy / sqrt (vx * vx + vy * vy)
                        * (collideStrength self * (nodeStrength self ni + nodeStrength self nj) * 0.5
                            / (sqrt (vx * vx + vy * vy) * sqrt (vx * vx + vy * vy))))
                      / massOf self nj)
                 else 0)"
    unfolding collisionAlong_opposite
    by (simp_all add: unitOf_def vlen_def meanStrength_def mult_ac)
  show ?thesis
    using assms
    by (simp add: pairDelta_def forceAlong_def base ci cj baseAlong_opposite Let_def)
qed

lemma repulsivePair_effect:
  assumes "i < j"
      and "preventOverlap self \<longrightarrow> nodeSize self \<noteq> None"
  shows "repulsivePair self rnd (massOf self ni) i ni (j, nj) (acc, r)
           = Inr (\<lambda>k. acc k + pairDelta self (separation rnd r ni nj) i ni j nj k,
                  if coincide ni nj then r + 2 else r)"
proof -
  from assms(1) have idx: "2 * i \<noteq> 2 * j" "2 * i \<noteq> 2 * j + 1" "2 * i + 1 \<noteq> 2 * j"
                          "2 * i + 1 \<noteq> 2 * j + 1" "\<not> j \<le> i"
    by presburger+
  show ?thesis
  proof (cases "coincide ni nj")
    case True
    then have same: "node_x ni = node_x nj" "node_y ni = node_y nj"
      by (simp_all add: coincide_def)
    have sep: "separation rnd r ni nj = (rnd r * 0.01, rnd (r + 1) * 0.01)"
      using True by (simp add: separation_def)
    show ?thesis
      unfolding sep pairDelta_explicit [OF assms(1)]
      using idx assms(2) True
      by (auto simp add: repulsivePair_def Let_def same addAt_def subAt_def fun_eq_iff
                         overlapAt_def vlen_def add_divide_distrib
               split: option.splits sizefun.splits)
  next
    case False
    then have nc: "\<not> (node_x ni = node_x nj \<and> node_y ni = node_y nj)"
      by (simp add: coincide_def)
    have sep: "separation rnd r ni nj = (node_x ni - node_x nj, node_y ni - node_y nj)"
      using False by (simp add: separation_def)
    show ?thesis
      unfolding sep pairDelta_explicit [OF assms(1)]
      using idx assms(2) False
      by (auto simp add: repulsivePair_def Let_def nc addAt_def subAt_def fun_eq_iff
                         overlapAt_def vlen_def add_divide_distrib
               split: option.splits sizefun.splits)
  qed
qed

lemma forEachE_append:
  "forEachE f (xs @ ys) s = (case forEachE f xs s of Inl e \<Rightarrow> Inl e | Inr s' \<Rightarrow> forEachE f ys s')"
  by (induction xs arbitrary: s) (auto split: sum.splits)

lemma enumerate_take_Suc:
  "k < length xs \<Longrightarrow> enumerate 0 (take (Suc k) xs) = enumerate 0 (take k xs) @ [(k, xs ! k)]"
  by (simp add: take_Suc_conv_app_nth enumerate_append_eq)

lemma drawsInRow_Suc:
  "drawsInRow nodes i (Suc k)
     = drawsInRow nodes i k + (if i < k \<and> coincide (nodes ! i) (nodes ! k) then 1 else 0)"
  by (simp add: drawsInRow_def)

lemma drawsBefore_Suc:
  "drawsBefore nodes (Suc i) = drawsBefore nodes i + drawsInRow nodes i (length nodes)"
  by (simp add: drawsBefore_def)

lemma pairDelta_skip: "\<not> i < j \<Longrightarrow> pairDelta self v i ni j nj k = 0"
  by (simp add: pairDelta_def)

lemma inner_loop:
  assumes "preventOverlap self \<longrightarrow> nodeSize self \<noteq> None"
      and "k \<le> length nodes"
  shows "forEachE (repulsivePair self rnd (massOf self (nodes ! i)) i (nodes ! i))
                  (enumerate 0 (take k nodes)) (acc, c)
           = Inr (\<lambda>e. acc e
                    + (\<Sum>j<k. pairDelta self
                                (separation rnd (c + 2 * drawsInRow nodes i j) (nodes ! i) (nodes ! j))
                                i (nodes ! i) j (nodes ! j) e),
                  c + 2 * drawsInRow nodes i k)"
  using assms(2)
proof (induction k)
  case 0
  then show ?case by (simp add: drawsInRow_def)
next
  case (Suc k)
  then have k: "k < length nodes" and IH:
    "forEachE (repulsivePair self rnd (massOf self (nodes ! i)) i (nodes ! i))
                  (enumerate 0 (take k nodes)) (acc, c)
           = Inr (\<lambda>e. acc e
                    + (\<Sum>j<k. pairDelta self
                                (separation rnd (c + 2 * drawsInRow nodes i j) (nodes ! i) (nodes ! j))
                                i (nodes ! i) j (nodes ! j) e),
                  c + 2 * drawsInRow nodes i k)"
    by simp_all
  show ?case
  proof (cases "i < k")
    case True
    show ?thesis
      unfolding enumerate_take_Suc [OF k] forEachE_append IH
      by (simp add: repulsivePair_effect [OF True assms(1)] drawsInRow_Suc True add.assoc)
  next
    case False
    then have "k \<le> i" by simp
    then show ?thesis
      unfolding enumerate_take_Suc [OF k] forEachE_append IH
      by (simp add: repulsivePair_skip pairDelta_skip drawsInRow_Suc False)
  qed
qed

lemma outer_loop:
  assumes "preventOverlap self \<longrightarrow> nodeSize self \<noteq> None"
      and "k \<le> length nodes"
  shows "forEachE (\<lambda>(i, ni) st1. forEachE (repulsivePair self rnd (massOf self ni) i ni)
                                          (enumerate 0 nodes) st1)
                  (enumerate 0 (take k nodes)) (acc, r)
           = Inr (\<lambda>e. acc e
                    + (\<Sum>i<k. \<Sum>j<length nodes.
                         pairDelta self
                           (separation rnd (counterAt r nodes i j) (nodes ! i) (nodes ! j))
                           i (nodes ! i) j (nodes ! j) e),
                  r + 2 * drawsBefore nodes k)"
  using assms(2)
proof (induction k)
  case 0
  then show ?case by (simp add: drawsBefore_def)
next
  case (Suc k)
  then have k: "k < length nodes" and IH:
    "forEachE (\<lambda>(i, ni) st1. forEachE (repulsivePair self rnd (massOf self ni) i ni)
                                          (enumerate 0 nodes) st1)
                  (enumerate 0 (take k nodes)) (acc, r)
           = Inr (\<lambda>e. acc e
                    + (\<Sum>i<k. \<Sum>j<length nodes.
                         pairDelta self
                           (separation rnd (counterAt r nodes i j) (nodes ! i) (nodes ! j))
                           i (nodes ! i) j (nodes ! j) e),
                  r + 2 * drawsBefore nodes k)"
    by simp_all
  have row: "forEachE (repulsivePair self rnd (massOf self (nodes ! k)) k (nodes ! k))
                  (enumerate 0 nodes) (a, r + 2 * drawsBefore nodes k)
           = Inr (\<lambda>e. a e
                    + (\<Sum>j<length nodes. pairDelta self
                                (separation rnd (counterAt r nodes k j) (nodes ! k) (nodes ! j))
                                k (nodes ! k) j (nodes ! j) e),
                  r + 2 * drawsBefore nodes (Suc k))" for a
    using inner_loop [OF assms(1) order_refl, where nodes = nodes and rnd = rnd and i = k
                        and acc = a and c = "r + 2 * drawsBefore nodes k"]
    by (simp add: counterAt_def drawsBefore_Suc add.assoc distrib_left)
  show ?case
    unfolding enumerate_take_Suc [OF k] forEachE_append IH
    by (simp add: row add.assoc)
qed

lemma pair_sum:
  fixes F :: "nat \<Rightarrow> nat \<Rightarrow> real"
  assumes "t < n"
  shows "(\<Sum>i = 0..<n. \<Sum>j = 0..<n.
            if i < j then (if t = i then F i j else if t = j then F j i else 0) else 0)
         = (\<Sum>m \<in> {0..<n} - {t}. F t m)"
proof -
  let ?A = "\<Sum>j = 0..<n. if t < j then F t j else 0"
  have inner: "(\<Sum>j = 0..<n. if i < j then (if t = i then F i j else if t = j then F j i else 0) else 0)
                 = (if i = t then ?A else 0) + (if i < t then F t i else 0)" for i
  proof -
    consider "i = t" | "i < t" | "t < i" by linarith
    then show ?thesis
    proof cases
      case 1
      then have "(\<Sum>j = 0..<n. if i < j then (if t = i then F i j else if t = j then F j i else 0) else 0)
                   = ?A"
        by (intro sum.cong) auto
      with 1 show ?thesis by simp
    next
      case 2
      then have "(\<Sum>j = 0..<n. if i < j then (if t = i then F i j else if t = j then F j i else 0) else 0)
                   = (\<Sum>j = 0..<n. if j = t then F t i else 0)"
        by (intro sum.cong) auto
      also have "\<dots> = F t i" using assms by simp
      finally show ?thesis using 2 by simp
    next
      case 3
      then have "(\<Sum>j = 0..<n. if i < j then (if t = i then F i j else if t = j then F j i else 0) else 0)
                   = (\<Sum>j = 0..<n. 0)"
        by (intro sum.cong) auto
      with 3 show ?thesis by simp
    qed
  qed
  have "(\<Sum>i = 0..<n. \<Sum>j = 0..<n.
            if i < j then (if t = i then F i j else if t = j then F j i else 0) else 0)
          = (\<Sum>i = 0..<n. (if i = t then ?A else 0) + (if i < t then F t i else 0))"
    by (simp only: inner)
  also have "\<dots> = ?A + (\<Sum>i = 0..<n. if i < t then F t i else 0)"
    using assms by (simp add: sum.distrib)
  also have "\<dots> = (\<Sum>m = 0..<n. (if t < m then F t m else 0) + (if m < t then F t m else 0))"
    by (simp add: sum.distrib)
  also have "\<dots> = (\<Sum>m = 0..<n. if m \<noteq> t then F t m else 0)"
    by (intro sum.cong) auto
  also have "\<dots> = (\<Sum>m \<in> {0..<n} - {t}. F t m)"
    by (rule sum.mono_neutral_cong_right) auto
  finally show ?thesis .
qed

lemma pairDelta_even:
  "pairDelta self v i ni j nj (2 * t)
     = (if i < j then (if t = i then fst (forceAlong self ni nj v)
                       else if t = j then fst (forceAlong self nj ni (opposite v)) else 0)
        else 0)"
proof -
  have "2 * t \<noteq> 2 * i + 1" "2 * t \<noteq> 2 * j + 1" by presburger+
  then show ?thesis by (auto simp: pairDelta_def)
qed

lemma pairDelta_odd:
  "pairDelta self v i ni j nj (2 * t + 1)
     = (if i < j then (if t = i then snd (forceAlong self ni nj v)
                       else if t = j then snd (forceAlong self nj ni (opposite v)) else 0)
        else 0)"
proof -
  have "2 * t + 1 \<noteq> 2 * i" "2 * t + 1 \<noteq> 2 * j" by presburger+
  then show ?thesis by (auto simp: pairDelta_def)
qed

lemma forceAlong_terms:
  "forceAlong self (nodes ! t) (nodes ! m) (pairVector rnd r nodes t m)
     = (fst (baseTerm self rnd r nodes t m) + fst (collisionTerm self rnd r nodes t m),
        snd (baseTerm self rnd r nodes t m) + snd (collisionTerm self rnd r nodes t m))"
  by (simp add: forceAlong_def baseTerm_def collisionTerm_def)

lemma calRepulsive_run:
  assumes "preventOverlap self \<longrightarrow> nodeSize self \<noteq> None"
  shows "calRepulsive self rnd nodes (acc, r)
           = Inr (\<lambda>e. acc e
                    + (\<Sum>i<length nodes. \<Sum>j<length nodes.
                         pairDelta self
                           (separation rnd (counterAt r nodes i j) (nodes ! i) (nodes ! j))
                           i (nodes ! i) j (nodes ! j) e),
                  r + 2 * drawsBefore nodes (length nodes))"
  using outer_loop [OF assms order_refl, where nodes = nodes and rnd = rnd and acc = acc and r = r]
  by (simp add: calRepulsive_def Let_def)

lemma pair_terms_sum:
  assumes "t < length nodes"
  shows "(\<Sum>i<length nodes. \<Sum>j<length nodes.
            pairDelta self (separation rnd (counterAt r nodes i j) (nodes ! i) (nodes ! j))
                      i (nodes ! i) j (nodes ! j) (2 * t))
           = (\<Sum>m \<in> {0..<length nodes} - {t}.
                fst (baseTerm self rnd r nodes t m) + fst (collisionTerm self rnd r nodes t m))"
    and "(\<Sum>i<length nodes. \<Sum>j<length nodes.
            pairDelta self (separation rnd (counterAt r nodes i j) (nodes ! i) (nodes ! j))
                      i (nodes ! i) j (nodes ! j) (2 * t + 1))
           = (\<Sum>m \<in> {0..<length nodes} - {t}.
                snd (baseTerm self rnd r nodes t m) + snd (collisionTerm self rnd r nodes t m))"
proof -
  let ?n = "length nodes"
  let ?F = "\<lambda>a b. forceAlong self (nodes ! a) (nodes ! b) (pairVector rnd r nodes a b)"
  have even: "pairDelta self (separation rnd (counterAt r nodes i j) (nodes ! i) (nodes ! j))
                      i (nodes ! i) j (nodes ! j) (2 * t)
              = (if i < j then (if t = i then fst (?F i j) else if t = j then fst (?F j i) else 0)
                 else 0)" for i j
    unfolding pairDelta_even by (auto simp: pairVector_def)
  have odd: "pairDelta self (separation rnd (counterAt r nodes i j) (nodes ! i) (nodes ! j))
                      i (nodes ! i) j (nodes ! j) (2 * t + 1)
              = (if i < j then (if t = i then snd (?F i j) else if t = j then snd (?F j i) else 0)
                 else 0)" for i j
    unfolding pairDelta_odd by (auto simp: pairVector_def)
  show "(\<Sum>i<?n. \<Sum>j<?n.
            pairDelta self (separation rnd (counterAt r nodes i j) (nodes ! i) (nodes ! j))
                      i (nodes ! i) j (nodes ! j) (2 * t))
           = (\<Sum>m \<in> {0..<?n} - {t}.
                fst (baseTerm self rnd r nodes t m) + fst (collisionTerm self rnd r nodes t m))"
    unfolding even lessThan_atLeast0
    using pair_sum [OF assms, of "\<lambda>a b. fst (?F a b)"]
    by (simp add: forceAlong_terms)
  show "(\<Sum>i<?n. \<Sum>j<?n.
            pairDelta self (separation rnd (counterAt r nodes i j) (nodes ! i) (nodes ! j))
                      i (nodes ! i) j (nodes ! j) (2 * t + 1))
           = (\<Sum>m \<in> {0..<?n} - {t}.
                snd (baseTerm self rnd r nodes t m) + snd (collisionTerm self rnd r nodes t m))"
    unfolding odd lessThan_atLeast0
    using pair_sum [OF assms, of "\<lambda>a b. snd (?F a b)"]
    by (simp add: forceAlong_terms)
qed

lemma calRepulsive_sum:
  assumes "preventOverlap self \<longrightarrow> nodeSize self \<noteq> None"
  shows "\<exists>acc'. calRepulsive self rnd nodes (acc, r)
                   = Inr (acc', r + 2 * drawsBefore nodes (length nodes))
           \<and> (\<forall>t < length nodes.
                 acc' (2 * t)
                   = acc (2 * t)
                     + (\<Sum>m \<in> {0..<length nodes} - {t}.
                          fst (baseTerm self rnd r nodes t m)
                          + fst (collisionTerm self rnd r nodes t m))
                 \<and> acc' (2 * t + 1)
                   = acc (2 * t + 1)
                     + (\<Sum>m \<in> {0..<length nodes} - {t}.
                          snd (baseTerm self rnd r nodes t m)
                          + snd (collisionTerm self rnd r nodes t m)))"
proof -
  let ?acc' = "\<lambda>e. acc e
                    + (\<Sum>i<length nodes. \<Sum>j<length nodes.
                         pairDelta self
                           (separation rnd (counterAt r nodes i j) (nodes ! i) (nodes ! j))
                           i (nodes ! i) j (nodes ! j) e)"
  have "calRepulsive self rnd nodes (acc, r)
          = Inr (?acc', r + 2 * drawsBefore nodes (length nodes))"
    by (rule calRepulsive_run [OF assms])
  moreover have "?acc' (2 * t)
                   = acc (2 * t)
                     + (\<Sum>m \<in> {0..<length nodes} - {t}.
                          fst (baseTerm self rnd r nodes t m)
                          + fst (collisionTerm self rnd r nodes t m))
                 \<and> ?acc' (2 * t + 1)
                   = acc (2 * t + 1)
                     + (\<Sum>m \<in> {0..<length nodes} - {t}.
                          snd (baseTerm self rnd r nodes t m)
                          + snd (collisionTerm self rnd r nodes t m))"
    if "t < length nodes" for t
    by (simp only: pair_terms_sum [OF that])
  ultimately show ?thesis by blast
qed

lemma sqrt_scale:
  "sqrt ((c * a) * (c * a) + (c * b) * (c * b)) = \<bar>c\<bar> * sqrt (a * a + b * b)"
proof -
  have "(c * a) * (c * a) + (c * b) * (c * b) = (c * c) * (a * a + b * b)"
    by (simp add: algebra_simps)
  then show ?thesis
    by (simp add: real_sqrt_mult)
qed

lemma coincide_sym: "coincide nj ni = coincide ni nj"
  by (auto simp: coincide_def)

lemma pairVector_apart:
  assumes "\<not> coincide (nodes ! t) (nodes ! m)"
  shows "pairVector rnd r nodes t m
           = (node_x (nodes ! t) - node_x (nodes ! m), node_y (nodes ! t) - node_y (nodes ! m))"
  using assms coincide_sym [of "nodes ! m" "nodes ! t"]
  by (simp add: pairVector_def separation_def opposite_def)

lemma pairVector_coincide:
  assumes "coincide (nodes ! t) (nodes ! m)"
  shows "pairVector rnd r nodes t m
           = (if t < m
              then (rnd (counterAt r nodes t m) * 0.01, rnd (counterAt r nodes t m + 1) * 0.01)
              else (- (rnd (counterAt r nodes m t) * 0.01),
                    - (rnd (counterAt r nodes m t + 1) * 0.01)))"
  using assms coincide_sym [of "nodes ! m" "nodes ! t"]
  by (simp add: pairVector_def separation_def opposite_def)

lemma pairVector_sym:
  "m \<noteq> t \<Longrightarrow> pairVector rnd r nodes m t = opposite (pairVector rnd r nodes t m)"
  by (auto simp: pairVector_def opposite_def)

lemma baseTerm_sym:
  assumes "m \<noteq> t"
  shows "baseTerm self rnd r nodes m t
           = (- fst (baseTerm self rnd r nodes t m), - snd (baseTerm self rnd r nodes t m))"
  unfolding baseTerm_def pairVector_sym [OF assms]
  by (simp add: prod_eq_iff baseAlong_opposite)

lemma baseTerm_no_mass:
  "baseTerm (self\<lparr>getMass := g\<rparr>) rnd r nodes t m = baseTerm self rnd r nodes t m"
  by (simp add: baseTerm_def baseAlong_def meanStrength_def)

lemma unitOf_unit:
  assumes "vlen v \<noteq> 0"
  shows "fst (unitOf v) * fst (unitOf v) + snd (unitOf v) * snd (unitOf v) = 1"
proof -
  from assms have "fst v \<noteq> 0 \<or> snd v \<noteq> 0"
    by (auto simp: vlen_def)
  from unit_direction(1) [OF this] show ?thesis
    by (simp add: unitOf_def vlen_def)
qed

lemma baseAlong_magnitude:
  assumes "vlen v \<noteq> 0"
  shows "sqrt (fst (baseAlong self ni nj v) * fst (baseAlong self ni nj v)
               + snd (baseAlong self ni nj v) * snd (baseAlong self ni nj v))
           = \<bar>meanStrength self ni nj * factor self
               / (((vlen v + 0.1) * coulombDisScale self) * ((vlen v + 0.1) * coulombDisScale self))\<bar>"
proof -
  let ?a = "meanStrength self ni nj * factor self
               / (((vlen v + 0.1) * coulombDisScale self) * ((vlen v + 0.1) * coulombDisScale self))"
  have "sqrt ((?a * fst (unitOf v)) * (?a * fst (unitOf v))
              + (?a * snd (unitOf v)) * (?a * snd (unitOf v)))
          = \<bar>?a\<bar> * sqrt (fst (unitOf v) * fst (unitOf v) + snd (unitOf v) * snd (unitOf v))"
    by (rule sqrt_scale)
  also have "\<dots> = \<bar>?a\<bar>"
    by (simp only: unitOf_unit [OF assms] real_sqrt_one mult_1_right)
  finally show ?thesis
    by (simp add: baseAlong_def Let_def)
qed

lemma vlen_apart:
  assumes "\<not> coincide ni nj"
  shows "vlen (node_x ni - node_x nj, node_y ni - node_y nj) \<noteq> 0"
proof -
  from assms have "node_x ni - node_x nj \<noteq> 0 \<or> node_y ni - node_y nj \<noteq> 0"
    by (auto simp: coincide_def)
  from unit_direction(2) [OF this]
  have "0 < vlen (node_x ni - node_x nj, node_y ni - node_y nj)"
    by (simp only: vlen_def fst_conv snd_conv)
  then show ?thesis by simp
qed

lemma base_pair:
  assumes "\<not> coincide (nodes ! t) (nodes ! m)"
  shows "let ni = nodes ! t; nj = nodes ! m;
             d = sqrt ((node_x ni - node_x nj) * (node_x ni - node_x nj)
                       + (node_y ni - node_y nj) * (node_y ni - node_y nj));
             a = ((nodeStrength self ni + nodeStrength self nj) / 2 * factor self)
                   / (((d + 0.1) * coulombDisScale self) * ((d + 0.1) * coulombDisScale self))
         in baseTerm self rnd r nodes t m
              = (a * ((node_x ni - node_x nj) / d), a * ((node_y ni - node_y nj) / d))
            \<and> ((node_x ni - node_x nj) / d) * ((node_x ni - node_x nj) / d)
                + ((node_y ni - node_y nj) / d) * ((node_y ni - node_y nj) / d) = 1
            \<and> sqrt (fst (baseTerm self rnd r nodes t m) * fst (baseTerm self rnd r nodes t m)
                     + snd (baseTerm self rnd r nodes t m) * snd (baseTerm self rnd r nodes t m))
                = \<bar>a\<bar>"
proof -
  let ?v = "(node_x (nodes ! t) - node_x (nodes ! m), node_y (nodes ! t) - node_y (nodes ! m))"
  note nz = vlen_apart [OF assms]
  have bt: "baseTerm self rnd r nodes t m = baseAlong self (nodes ! t) (nodes ! m) ?v"
    by (simp add: baseTerm_def pairVector_apart [OF assms])
  show ?thesis
    unfolding Let_def bt
    using unitOf_unit [OF nz] baseAlong_magnitude [OF nz, of self "nodes ! t" "nodes ! m"]
    by (simp add: baseAlong_def Let_def unitOf_def vlen_def meanStrength_def)
qed

lemma collision_pair:
  assumes "preventOverlap self" and "nodeSize self = Some (Sizes sz)"
  shows "let ni = nodes ! t; nj = nodes ! m;
             v = pairVector rnd r nodes t m;
             d = sqrt (fst v * fst v + snd v * snd v);
             c = collideStrength self * ((nodeStrength self ni + nodeStrength self nj) / 2) / (d * d)
         in if sz ni / 2 + sz nj / 2 > d
            then collisionTerm self rnd r nodes t m
                   = (c * (fst v / d) / massOf self ni, c * (snd v / d) / massOf self ni)
            else collisionTerm self rnd r nodes t m = (0, 0)"
  using assms
  by (simp add: collisionTerm_def collisionAlong_def overlapAt_def Let_def unitOf_def vlen_def
                meanStrength_def)

lemma collision_off:
  "\<not> preventOverlap self \<Longrightarrow> collisionTerm self rnd r nodes t m = (0, 0)"
  by (simp add: collisionTerm_def collisionAlong_def overlapAt_def)

lemma two_nodes: "{0..<length [a, b]} - {0} = {1::nat}" "{0..<length [a, b]} - {1} = {0::nat}"
  by auto

lemma three_nodes: "{0..<length [a, b, c]} - {2} = {0, 1::nat}"
  by auto

lemma example_positions:
  "node_x nodeA = 0" "node_y nodeA = 0" "node_x nodeB = 1" "node_y nodeB = 0"
  "node_x nodeC = 0" "node_y nodeC = 0"
  by (simp_all add: nodeA_def nodeB_def nodeC_def)

lemma example_coincide:
  "coincide nodeA nodeC" "coincide nodeC nodeA"
  "\<not> coincide nodeA nodeB" "\<not> coincide nodeB nodeA"
  "\<not> coincide nodeC nodeB" "\<not> coincide nodeB nodeC"
  by (simp_all add: coincide_def example_positions)

lemma defaultLayout_repulsion:
  "nodeStrength defaultLayout n = 1000" "factor defaultLayout = 1"
  "coulombDisScale defaultLayout = 0.005" "collideStrength defaultLayout = 1"
  "massOf defaultLayout n = 1" "preventOverlap defaultLayout"
  "nodeSize defaultLayout = Some (Sizes (\<lambda>n. 10))"
  by (simp_all add: defaultLayout_def massOf_def)

lemma noOverlapLayout_repulsion:
  "nodeStrength noOverlapLayout n = 1000" "factor noOverlapLayout = 1"
  "coulombDisScale noOverlapLayout = 0.005" "\<not> preventOverlap noOverlapLayout"
  by (simp_all add: noOverlapLayout_def defaultLayout_def)

lemma example_draws: "drawsBefore [nodeA, nodeC, nodeB] (length [nodeA, nodeC, nodeB]) = 1"
  by (simp add: drawsBefore_def drawsInRow_def example_coincide upt_rec)

lemma vlen_unit: "vlen (1, 0) = 1"
  by (simp add: vlen_def)

lemma vlen_perturbed: "vlen (0.6 * 0.01, 0.8 * 0.01) = 0.01"
proof -
  have "(0.6 * 0.01) * (0.6 * 0.01) + (0.8 * 0.01) * (0.8 * 0.01) = (0.01 :: real) * 0.01"
    by simp
  then have "vlen (0.6 * 0.01, 0.8 * 0.01) = sqrt ((0.01 :: real) * 0.01)"
    by (simp only: vlen_def fst_conv snd_conv)
  also have "\<dots> = 0.01" by (simp only: real_sqrt_abs2) simp
  finally show ?thesis .
qed

lemma tinyLayout_repulsion:
  "nodeStrength tinyLayout n = 1000" "factor tinyLayout = 1"
  "coulombDisScale tinyLayout = 0.005" "collideStrength tinyLayout = 1"
  "massOf tinyLayout n = 1" "preventOverlap tinyLayout"
  "nodeSize tinyLayout = Some (Sizes (\<lambda>n. 0.001))"
  by (simp_all add: tinyLayout_def defaultLayout_def massOf_def)

lemma perturbed_pair:
  "pairVector unevenRnd 0 [nodeA, nodeC] 0 1 = (0.6 * 0.01, 0.8 * 0.01)"
proof -
  have c: "counterAt 0 [nodeA, nodeC] 0 1 = 0"
    by (simp add: counterAt_def drawsBefore_def drawsInRow_def)
  have "coincide ([nodeA, nodeC] ! 0) ([nodeA, nodeC] ! 1)"
    by (simp add: example_coincide)
  from pairVector_coincide [OF this, of unevenRnd 0] show ?thesis
    by (simp only: c) (simp add: unevenRnd_def)
qed

lemma perturbed_terms:
  "baseTerm tinyLayout unevenRnd 0 [nodeA, nodeC] 0 1
     = (0.6 * (1000 / (0.00055 * 0.00055)), 0.8 * (1000 / (0.00055 * 0.00055)))"
  "collisionTerm tinyLayout unevenRnd 0 [nodeA, nodeC] 0 1 = (0, 0)"
  "baseTerm defaultLayout unevenRnd 0 [nodeA, nodeC] 0 1
     = (0.6 * (1000 / (0.00055 * 0.00055)), 0.8 * (1000 / (0.00055 * 0.00055)))"
  "collisionTerm defaultLayout unevenRnd 0 [nodeA, nodeC] 0 1 = (6000000, 8000000)"
proof -
  define v where "v = pairVector unevenRnd 0 [nodeA, nodeC] 0 1"
  have vv: "v = (0.6 * 0.01, 0.8 * 0.01)"
    unfolding v_def by (rule perturbed_pair)
  have vl: "vlen v = 0.01"
    unfolding vv by (rule vlen_perturbed)
  have fs: "fst v = 0.006" "snd v = 0.008"
    by (simp_all add: vv)
  show "baseTerm tinyLayout unevenRnd 0 [nodeA, nodeC] 0 1
          = (0.6 * (1000 / (0.00055 * 0.00055)), 0.8 * (1000 / (0.00055 * 0.00055)))"
    unfolding baseTerm_def v_def [symmetric]
    by (simp add: baseAlong_def unitOf_def vl fs meanStrength_def Let_def tinyLayout_repulsion)
  show "collisionTerm tinyLayout unevenRnd 0 [nodeA, nodeC] 0 1 = (0, 0)"
    unfolding collisionTerm_def v_def [symmetric]
    by (simp add: collisionAlong_def overlapAt_def vl Let_def tinyLayout_repulsion)
  show "baseTerm defaultLayout unevenRnd 0 [nodeA, nodeC] 0 1
          = (0.6 * (1000 / (0.00055 * 0.00055)), 0.8 * (1000 / (0.00055 * 0.00055)))"
    unfolding baseTerm_def v_def [symmetric]
    by (simp add: baseAlong_def unitOf_def vl fs meanStrength_def Let_def defaultLayout_repulsion)
  show "collisionTerm defaultLayout unevenRnd 0 [nodeA, nodeC] 0 1 = (6000000, 8000000)"
    unfolding collisionTerm_def v_def [symmetric]
    by (simp add: collisionAlong_def overlapAt_def unitOf_def vl fs meanStrength_def Let_def
                  defaultLayout_repulsion)
qed

lemma perturbed_three:
  "pairVector unevenRnd 0 [nodeA, nodeC, nodeB] 0 1 = (0.6 * 0.01, 0.8 * 0.01)"
proof -
  have c: "counterAt 0 [nodeA, nodeC, nodeB] 0 1 = 0"
    by (simp add: counterAt_def drawsBefore_def drawsInRow_def)
  have "coincide ([nodeA, nodeC, nodeB] ! 0) ([nodeA, nodeC, nodeB] ! 1)"
    by (simp add: example_coincide)
  from pairVector_coincide [OF this, of unevenRnd 0] show ?thesis
    by (simp only: c) (simp add: unevenRnd_def)
qed

lemma perturbed_base:
  "baseTerm noOverlapLayout unevenRnd 0 [nodeA, nodeC, nodeB] 0 1
     = (0.6 * (1000 / (0.00055 * 0.00055)), 0.8 * (1000 / (0.00055 * 0.00055)))"
proof -
  define v where "v = pairVector unevenRnd 0 [nodeA, nodeC, nodeB] 0 1"
  have vv: "v = (0.6 * 0.01, 0.8 * 0.01)"
    unfolding v_def by (rule perturbed_three)
  have vl: "vlen v = 0.01"
    unfolding vv by (rule vlen_perturbed)
  have fs: "fst v = 0.006" "snd v = 0.008"
    by (simp_all add: vv)
  show ?thesis
    unfolding baseTerm_def v_def [symmetric]
    by (simp add: baseAlong_def unitOf_def vl fs meanStrength_def Let_def noOverlapLayout_repulsion)
qed

lemma three_nodes_first: "{0..<length [a, b, c]} - {0} = {1, 2::nat}"
  by auto

text \<open>
  C1: \<open>calRepulsive\<close> returns, and adds to the two entries of node \<open>t\<close> the sum,
  over the other nodes \<open>m\<close>, of the base term and the collision term (where the code
  divides by no zero for \<open>t\<close>). For every two nodes at distinct positions, wherever the
  other nodes are, the base term of \<open>t\<close> by \<open>m\<close> is
  \<open>a = (strength t + strength m) / 2 * factor / ((distance + 0.1) * coulombDisScale)\<^sup>2\<close>
  times the unit vector from \<open>m\<close> to \<open>t\<close>, so it has magnitude \<open>\<bar>a\<bar>\<close>; \<open>m\<close> gets the
  opposite; and no mass enters it.
\<close>

theorem base_repulsion:
  assumes "preventOverlap self \<longrightarrow> nodeSize self \<noteq> None"
      and "coulombDisScale self \<noteq> 0"
  shows "\<exists>acc'. calRepulsive self rnd nodes (acc, r)
                   = Inr (acc', r + 2 * drawsBefore nodes (length nodes))
           \<and> (\<forall>t < length nodes.
                 (\<forall>m < length nodes. m \<noteq> t \<longrightarrow> vlen (pairVector rnd r nodes t m) \<noteq> 0)
                 \<and> (preventOverlap self \<longrightarrow> massOf self (nodes ! t) \<noteq> 0) \<longrightarrow>
                 acc' (2 * t)
                   = acc (2 * t)
                     + (\<Sum>m \<in> {0..<length nodes} - {t}.
                          fst (baseTerm self rnd r nodes t m)
                          + fst (collisionTerm self rnd r nodes t m))
                 \<and> acc' (2 * t + 1)
                   = acc (2 * t + 1)
                     + (\<Sum>m \<in> {0..<length nodes} - {t}.
                          snd (baseTerm self rnd r nodes t m)
                          + snd (collisionTerm self rnd r nodes t m)))
           \<and> (\<forall>t < length nodes. \<forall>m < length nodes.
                 \<not> coincide (nodes ! t) (nodes ! m) \<longrightarrow>
                 (let ni = nodes ! t; nj = nodes ! m;
                      d = sqrt ((node_x ni - node_x nj) * (node_x ni - node_x nj)
                                + (node_y ni - node_y nj) * (node_y ni - node_y nj));
                      a = ((nodeStrength self ni + nodeStrength self nj) / 2 * factor self)
                            / (((d + 0.1) * coulombDisScale self) * ((d + 0.1) * coulombDisScale self))
                  in baseTerm self rnd r nodes t m
                       = (a * ((node_x ni - node_x nj) / d), a * ((node_y ni - node_y nj) / d))
                     \<and> ((node_x ni - node_x nj) / d) * ((node_x ni - node_x nj) / d)
                         + ((node_y ni - node_y nj) / d) * ((node_y ni - node_y nj) / d) = 1
                     \<and> sqrt (fst (baseTerm self rnd r nodes t m) * fst (baseTerm self rnd r nodes t m)
                              + snd (baseTerm self rnd r nodes t m) * snd (baseTerm self rnd r nodes t m))
                         = \<bar>a\<bar>
                     \<and> baseTerm self rnd r nodes m t
                         = (- fst (baseTerm self rnd r nodes t m), - snd (baseTerm self rnd r nodes t m))
                     \<and> (\<forall>g. baseTerm (self\<lparr>getMass := g\<rparr>) rnd r nodes t m
                                = baseTerm self rnd r nodes t m)))"
proof -
  from calRepulsive_sum [OF assms(1), of rnd nodes acc r] obtain acc' where
    run: "calRepulsive self rnd nodes (acc, r)
            = Inr (acc', r + 2 * drawsBefore nodes (length nodes))"
    and sums: "\<forall>t < length nodes.
                 acc' (2 * t)
                   = acc (2 * t)
                     + (\<Sum>m \<in> {0..<length nodes} - {t}.
                          fst (baseTerm self rnd r nodes t m)
                          + fst (collisionTerm self rnd r nodes t m))
                 \<and> acc' (2 * t + 1)
                   = acc (2 * t + 1)
                     + (\<Sum>m \<in> {0..<length nodes} - {t}.
                          snd (baseTerm self rnd r nodes t m)
                          + snd (collisionTerm self rnd r nodes t m))"
    by blast
  have each: "let ni = nodes ! t; nj = nodes ! m;
                  d = sqrt ((node_x ni - node_x nj) * (node_x ni - node_x nj)
                            + (node_y ni - node_y nj) * (node_y ni - node_y nj));
                  a = ((nodeStrength self ni + nodeStrength self nj) / 2 * factor self)
                        / (((d + 0.1) * coulombDisScale self) * ((d + 0.1) * coulombDisScale self))
              in baseTerm self rnd r nodes t m
                   = (a * ((node_x ni - node_x nj) / d), a * ((node_y ni - node_y nj) / d))
                 \<and> ((node_x ni - node_x nj) / d) * ((node_x ni - node_x nj) / d)
                     + ((node_y ni - node_y nj) / d) * ((node_y ni - node_y nj) / d) = 1
                 \<and> sqrt (fst (baseTerm self rnd r nodes t m) * fst (baseTerm self rnd r nodes t m)
                          + snd (baseTerm self rnd r nodes t m) * snd (baseTerm self rnd r nodes t m))
                     = \<bar>a\<bar>
                 \<and> baseTerm self rnd r nodes m t
                     = (- fst (baseTerm self rnd r nodes t m), - snd (baseTerm self rnd r nodes t m))
                 \<and> (\<forall>g. baseTerm (self\<lparr>getMass := g\<rparr>) rnd r nodes t m
                            = baseTerm self rnd r nodes t m)"
    if apart: "\<not> coincide (nodes ! t) (nodes ! m)" for t m
  proof -
    from apart have "m \<noteq> t" by (auto simp: coincide_def)
    note sym = baseTerm_sym [OF this, of self rnd r nodes]
    show ?thesis
      using base_pair [OF apart, of self rnd r] sym
            baseTerm_no_mass [where self = self and rnd = rnd and r = r and nodes = nodes
                                and t = t and m = m]
      unfolding Let_def by blast
  qed
  from run sums each show ?thesis by blast
qed

theorem base_repulsion_witness:
  "\<not> preventOverlap noOverlapLayout
   \<and> coulombDisScale noOverlapLayout \<noteq> 0
   \<and> (2::nat) < length [nodeA, nodeC, nodeB]
   \<and> coincide ([nodeA, nodeC, nodeB] ! 0) ([nodeA, nodeC, nodeB] ! 1)
   \<and> \<not> coincide ([nodeA, nodeC, nodeB] ! 2) ([nodeA, nodeC, nodeB] ! 0)
   \<and> vlen (pairVector unevenRnd 0 [nodeA, nodeC, nodeB] 0 1) \<noteq> 0
   \<and> vlen (pairVector unevenRnd 0 [nodeA, nodeC, nodeB] 0 2) \<noteq> 0
   \<and> vlen (pairVector unevenRnd 0 [nodeA, nodeC, nodeB] 2 0) \<noteq> 0
   \<and> vlen (pairVector unevenRnd 0 [nodeA, nodeC, nodeB] 2 1) \<noteq> 0
   \<and> (\<exists>acc'. calRepulsive noOverlapLayout unevenRnd [nodeA, nodeC, nodeB] (zeroBuffer, 0)
                = Inr (acc', 2)
         \<and> acc' 4 = 2 * (1000 / (0.0055 * 0.0055)) \<and> acc' 5 = 0
         \<and> acc' 0 = 0.6 * (1000 / (0.00055 * 0.00055)) - 1000 / (0.0055 * 0.0055)
         \<and> acc' 1 = 0.8 * (1000 / (0.00055 * 0.00055)))
   \<and> baseTerm noOverlapLayout unevenRnd 0 [nodeA, nodeC, nodeB] 2 0 = (1000 / (0.0055 * 0.0055), 0)
   \<and> baseTerm noOverlapLayout unevenRnd 0 [nodeA, nodeC, nodeB] 0 2 = (- (1000 / (0.0055 * 0.0055)), 0)"
proof -
  let ?nodes = "[nodeA, nodeC, nodeB]"
  have h: "preventOverlap noOverlapLayout \<longrightarrow> nodeSize noOverlapLayout \<noteq> None"
          "coulombDisScale noOverlapLayout \<noteq> 0"
    by (simp_all add: noOverlapLayout_repulsion)
  have t: "(2::nat) < length ?nodes" "(0::nat) < length ?nodes" by simp_all
  have co: "coincide (?nodes ! 0) (?nodes ! 1)" "\<not> coincide (?nodes ! 2) (?nodes ! 0)"
           "\<not> coincide (?nodes ! 2) (?nodes ! 1)" "\<not> coincide (?nodes ! 0) (?nodes ! 2)"
    by (simp_all add: example_coincide)
  have v: "pairVector unevenRnd 0 ?nodes 2 0 = (1, 0)" "pairVector unevenRnd 0 ?nodes 2 1 = (1, 0)"
    using pairVector_apart [OF co(2), of unevenRnd 0] pairVector_apart [OF co(3), of unevenRnd 0]
    by (simp_all add: example_positions)
  have nz: "vlen (pairVector unevenRnd 0 ?nodes 2 0) \<noteq> 0"
           "vlen (pairVector unevenRnd 0 ?nodes 2 1) \<noteq> 0"
    by (simp_all only: v vlen_unit)
  then have guard: "\<forall>m < length ?nodes. m \<noteq> 2 \<longrightarrow> vlen (pairVector unevenRnd 0 ?nodes 2 m) \<noteq> 0"
    by (simp add: less_Suc_eq numeral_3_eq_3)
  have nz0: "vlen (pairVector unevenRnd 0 ?nodes 0 1) \<noteq> 0"
            "vlen (pairVector unevenRnd 0 ?nodes 0 2) \<noteq> 0"
    using vlen_apart [OF co(4)]
    by (simp_all only: perturbed_three vlen_perturbed pairVector_apart [OF co(4)]) simp_all
  then have guard0: "\<forall>m < length ?nodes. m \<noteq> 0 \<longrightarrow> vlen (pairVector unevenRnd 0 ?nodes 0 m) \<noteq> 0"
    by (auto simp: less_Suc_eq numeral_3_eq_3 numeral_2_eq_2)
  have bt: "baseTerm noOverlapLayout unevenRnd 0 ?nodes 2 0 = (1000 / (0.0055 * 0.0055), 0)"
           "baseTerm noOverlapLayout unevenRnd 0 ?nodes 2 1 = (1000 / (0.0055 * 0.0055), 0)"
    unfolding baseTerm_def v
    by (simp_all add: baseAlong_def unitOf_def vlen_unit meanStrength_def Let_def
                      noOverlapLayout_repulsion)
  have ct: "collisionTerm noOverlapLayout unevenRnd 0 ?nodes k m = (0, 0)" for k m
    by (simp add: collision_off noOverlapLayout_repulsion)
  from base_repulsion [OF h, of unevenRnd ?nodes zeroBuffer 0]
  obtain acc' where
    run: "calRepulsive noOverlapLayout unevenRnd ?nodes (zeroBuffer, 0)
            = Inr (acc', 0 + 2 * drawsBefore ?nodes (length ?nodes))"
    and sums: "\<forall>t < length ?nodes.
                 (\<forall>m < length ?nodes. m \<noteq> t \<longrightarrow> vlen (pairVector unevenRnd 0 ?nodes t m) \<noteq> 0)
                 \<and> (preventOverlap noOverlapLayout \<longrightarrow> massOf noOverlapLayout (?nodes ! t) \<noteq> 0) \<longrightarrow>
                 acc' (2 * t)
                   = zeroBuffer (2 * t)
                     + (\<Sum>m \<in> {0..<length ?nodes} - {t}.
                          fst (baseTerm noOverlapLayout unevenRnd 0 ?nodes t m)
                          + fst (collisionTerm noOverlapLayout unevenRnd 0 ?nodes t m))
                 \<and> acc' (2 * t + 1)
                   = zeroBuffer (2 * t + 1)
                     + (\<Sum>m \<in> {0..<length ?nodes} - {t}.
                          snd (baseTerm noOverlapLayout unevenRnd 0 ?nodes t m)
                          + snd (collisionTerm noOverlapLayout unevenRnd 0 ?nodes t m))"
    and each: "\<forall>t < length ?nodes. \<forall>m < length ?nodes.
                 \<not> coincide (?nodes ! t) (?nodes ! m) \<longrightarrow>
                 (let ni = ?nodes ! t; nj = ?nodes ! m;
                      d = sqrt ((node_x ni - node_x nj) * (node_x ni - node_x nj)
                                + (node_y ni - node_y nj) * (node_y ni - node_y nj));
                      a = ((nodeStrength noOverlapLayout ni + nodeStrength noOverlapLayout nj) / 2
                             * factor noOverlapLayout)
                            / (((d + 0.1) * coulombDisScale noOverlapLayout)
                               * ((d + 0.1) * coulombDisScale noOverlapLayout))
                  in baseTerm noOverlapLayout unevenRnd 0 ?nodes t m
                       = (a * ((node_x ni - node_x nj) / d), a * ((node_y ni - node_y nj) / d))
                     \<and> ((node_x ni - node_x nj) / d) * ((node_x ni - node_x nj) / d)
                         + ((node_y ni - node_y nj) / d) * ((node_y ni - node_y nj) / d) = 1
                     \<and> sqrt (fst (baseTerm noOverlapLayout unevenRnd 0 ?nodes t m)
                                * fst (baseTerm noOverlapLayout unevenRnd 0 ?nodes t m)
                              + snd (baseTerm noOverlapLayout unevenRnd 0 ?nodes t m)
                                * snd (baseTerm noOverlapLayout unevenRnd 0 ?nodes t m))
                         = \<bar>a\<bar>
                     \<and> baseTerm noOverlapLayout unevenRnd 0 ?nodes m t
                         = (- fst (baseTerm noOverlapLayout unevenRnd 0 ?nodes t m),
                            - snd (baseTerm noOverlapLayout unevenRnd 0 ?nodes t m))
                     \<and> (\<forall>g. baseTerm (noOverlapLayout\<lparr>getMass := g\<rparr>) unevenRnd 0 ?nodes t m
                                = baseTerm noOverlapLayout unevenRnd 0 ?nodes t m))"
    by blast
  from run have run': "calRepulsive noOverlapLayout unevenRnd ?nodes (zeroBuffer, 0) = Inr (acc', 2)"
    by (simp only: example_draws) simp
  from each t co(2)
  have "baseTerm noOverlapLayout unevenRnd 0 ?nodes 0 2
          = (- fst (baseTerm noOverlapLayout unevenRnd 0 ?nodes 2 0),
             - snd (baseTerm noOverlapLayout unevenRnd 0 ?nodes 2 0))"
    unfolding Let_def by blast
  then have opp: "baseTerm noOverlapLayout unevenRnd 0 ?nodes 0 2 = (- (1000 / (0.0055 * 0.0055)), 0)"
    by (simp add: bt)
  from sums t(1) guard noOverlapLayout_repulsion(4)
  have "acc' (2 * 2)
          = zeroBuffer (2 * 2)
            + (\<Sum>m \<in> {0..<length ?nodes} - {2}.
                 fst (baseTerm noOverlapLayout unevenRnd 0 ?nodes 2 m)
                 + fst (collisionTerm noOverlapLayout unevenRnd 0 ?nodes 2 m))
         \<and> acc' (2 * 2 + 1)
          = zeroBuffer (2 * 2 + 1)
            + (\<Sum>m \<in> {0..<length ?nodes} - {2}.
                 snd (baseTerm noOverlapLayout unevenRnd 0 ?nodes 2 m)
                 + snd (collisionTerm noOverlapLayout unevenRnd 0 ?nodes 2 m))"
    by blast
  then have vals: "acc' 4 = 2 * (1000 / (0.0055 * 0.0055))" "acc' 5 = 0"
    unfolding three_nodes using bt(2) by (simp_all add: bt ct zeroBuffer_def)
  from sums t(2) guard0 noOverlapLayout_repulsion(4)
  have "acc' (2 * 0)
          = zeroBuffer (2 * 0)
            + (\<Sum>m \<in> {0..<length ?nodes} - {0}.
                 fst (baseTerm noOverlapLayout unevenRnd 0 ?nodes 0 m)
                 + fst (collisionTerm noOverlapLayout unevenRnd 0 ?nodes 0 m))
         \<and> acc' (2 * 0 + 1)
          = zeroBuffer (2 * 0 + 1)
            + (\<Sum>m \<in> {0..<length ?nodes} - {0}.
                 snd (baseTerm noOverlapLayout unevenRnd 0 ?nodes 0 m)
                 + snd (collisionTerm noOverlapLayout unevenRnd 0 ?nodes 0 m))"
    by blast
  then have vals0: "acc' 0 = 0.6 * (1000 / (0.00055 * 0.00055)) - 1000 / (0.0055 * 0.0055)"
                   "acc' 1 = 0.8 * (1000 / (0.00055 * 0.00055))"
    unfolding three_nodes_first using perturbed_base opp by (simp_all add: ct zeroBuffer_def)
  from h(2) t(1) co(1,2) nz nz0 run' vals vals0 bt(1) opp noOverlapLayout_repulsion(4)
  show ?thesis by blast
qed

text \<open>
  C3, as stated, fails for nodes at the same position: the code tests the half sizes
  against the length of the random vector it has put in place of the zero distance, and
  divides by that length. Two nodes of size 0.001 at the same point are closer than
  their half sizes add up to, yet with the random numbers 0.6 and 0.8 the vector has
  length 0.01, the test fails and only the base term is added.
\<close>

theorem coincident_overlap_counterexample:
  "preventOverlap tinyLayout
   \<and> nodeSize tinyLayout = Some (Sizes (\<lambda>n. 0.001))
   \<and> sqrt ((node_x nodeA - node_x nodeC) * (node_x nodeA - node_x nodeC)
           + (node_y nodeA - node_y nodeC) * (node_y nodeA - node_y nodeC))
        < 0.001 / 2 + 0.001 / 2
   \<and> bufferAt (calRepulsive tinyLayout unevenRnd [nodeA, nodeC] (zeroBuffer, 0)) 0
        = Some (0.6 * (1000 / (0.00055 * 0.00055)))
   \<and> bufferAt (calRepulsive tinyLayout unevenRnd [nodeA, nodeC] (zeroBuffer, 0)) 1
        = Some (0.8 * (1000 / (0.00055 * 0.00055)))
   \<and> baseTerm tinyLayout unevenRnd 0 [nodeA, nodeC] 0 1
        = (0.6 * (1000 / (0.00055 * 0.00055)), 0.8 * (1000 / (0.00055 * 0.00055)))"
proof -
  let ?nodes = "[nodeA, nodeC]"
  have ok: "preventOverlap tinyLayout \<longrightarrow> nodeSize tinyLayout \<noteq> None"
    by (simp add: tinyLayout_repulsion)
  from calRepulsive_sum [OF ok, of unevenRnd ?nodes zeroBuffer 0] obtain acc' r' where
    run: "calRepulsive tinyLayout unevenRnd ?nodes (zeroBuffer, 0) = Inr (acc', r')"
    and sums: "\<forall>t < length ?nodes.
                 acc' (2 * t)
                   = zeroBuffer (2 * t)
                     + (\<Sum>m \<in> {0..<length ?nodes} - {t}.
                          fst (baseTerm tinyLayout unevenRnd 0 ?nodes t m)
                          + fst (collisionTerm tinyLayout unevenRnd 0 ?nodes t m))
                 \<and> acc' (2 * t + 1)
                   = zeroBuffer (2 * t + 1)
                     + (\<Sum>m \<in> {0..<length ?nodes} - {t}.
                          snd (baseTerm tinyLayout unevenRnd 0 ?nodes t m)
                          + snd (collisionTerm tinyLayout unevenRnd 0 ?nodes t m))"
    by blast
  have "(0::nat) < length ?nodes" by simp
  with sums
  have "acc' (2 * 0)
          = zeroBuffer (2 * 0)
            + (\<Sum>m \<in> {0..<length ?nodes} - {0}.
                 fst (baseTerm tinyLayout unevenRnd 0 ?nodes 0 m)
                 + fst (collisionTerm tinyLayout unevenRnd 0 ?nodes 0 m))
         \<and> acc' (2 * 0 + 1)
          = zeroBuffer (2 * 0 + 1)
            + (\<Sum>m \<in> {0..<length ?nodes} - {0}.
                 snd (baseTerm tinyLayout unevenRnd 0 ?nodes 0 m)
                 + snd (collisionTerm tinyLayout unevenRnd 0 ?nodes 0 m))"
    by blast
  then have "acc' 0 = 0.6 * (1000 / (0.00055 * 0.00055))"
            "acc' 1 = 0.8 * (1000 / (0.00055 * 0.00055))"
    unfolding two_nodes using perturbed_terms by (simp_all add: zeroBuffer_def)
  with run have "bufferAt (calRepulsive tinyLayout unevenRnd ?nodes (zeroBuffer, 0)) 0
                   = Some (0.6 * (1000 / (0.00055 * 0.00055)))"
                "bufferAt (calRepulsive tinyLayout unevenRnd ?nodes (zeroBuffer, 0)) 1
                   = Some (0.8 * (1000 / (0.00055 * 0.00055)))"
    by (simp_all add: bufferAt_def)
  moreover have "sqrt ((node_x nodeA - node_x nodeC) * (node_x nodeA - node_x nodeC)
           + (node_y nodeA - node_y nodeC) * (node_y nodeA - node_y nodeC))
        < 0.001 / 2 + 0.001 / 2"
    by (simp add: example_positions)
  ultimately show ?thesis
    using tinyLayout_repulsion(6,7) perturbed_terms(1) by blast
qed

text \<open>
  C3 (amended): with overlap prevention on, \<open>calRepulsive\<close> adds to the entries of
  node \<open>t\<close>, for every other node \<open>m\<close>, the base term and on top of it the collision
  term. The pair is handled with the vector \<open>v\<close> from \<open>m\<close> to \<open>t\<close>: the difference of
  the positions, or the random vector when the positions are the same. When the half sizes
  of \<open>t\<close> and \<open>m\<close> add up to more than the length \<open>d\<close> of \<open>v\<close>, the collision term is
  \<open>collideStrength * (strength t + strength m) / 2 / d\<^sup>2\<close> along the unit vector of
  \<open>v\<close>, divided by the mass of \<open>t\<close>; otherwise it is zero and only the base term is
  added. (The length \<open>d\<close> and the mass of \<open>t\<close> are not zero: the code divides by
  them.)
\<close>

theorem overlap_collision:
  assumes "preventOverlap self" and "nodeSize self = Some (Sizes sz)"
      and "coulombDisScale self \<noteq> 0"
  shows "\<exists>acc'. calRepulsive self rnd nodes (acc, r)
                   = Inr (acc', r + 2 * drawsBefore nodes (length nodes))
           \<and> (\<forall>t < length nodes.
                 (\<forall>m < length nodes. m \<noteq> t \<longrightarrow> vlen (pairVector rnd r nodes t m) \<noteq> 0)
                 \<and> massOf self (nodes ! t) \<noteq> 0 \<longrightarrow>
                 acc' (2 * t)
                   = acc (2 * t)
                     + (\<Sum>m \<in> {0..<length nodes} - {t}.
                          fst (baseTerm self rnd r nodes t m)
                          + fst (collisionTerm self rnd r nodes t m))
                 \<and> acc' (2 * t + 1)
                   = acc (2 * t + 1)
                     + (\<Sum>m \<in> {0..<length nodes} - {t}.
                          snd (baseTerm self rnd r nodes t m)
                          + snd (collisionTerm self rnd r nodes t m)))
           \<and> (\<forall>t < length nodes. \<forall>m < length nodes. m \<noteq> t \<longrightarrow>
                 (let ni = nodes ! t; nj = nodes ! m;
                      v = pairVector rnd r nodes t m;
                      d = sqrt (fst v * fst v + snd v * snd v);
                      c = collideStrength self * ((nodeStrength self ni + nodeStrength self nj) / 2)
                            / (d * d)
                  in (d \<noteq> 0 \<and> massOf self ni \<noteq> 0 \<longrightarrow>
                        (if sz ni / 2 + sz nj / 2 > d
                         then collisionTerm self rnd r nodes t m
                                = (c * (fst v / d) / massOf self ni, c * (snd v / d) / massOf self ni)
                         else collisionTerm self rnd r nodes t m = (0, 0)))
                     \<and> (\<not> coincide ni nj \<longrightarrow>
                          v = (node_x ni - node_x nj, node_y ni - node_y nj))
                     \<and> (coincide ni nj \<longrightarrow>
                          v = (if t < m
                               then (rnd (counterAt r nodes t m) * 0.01,
                                     rnd (counterAt r nodes t m + 1) * 0.01)
                               else (- (rnd (counterAt r nodes m t) * 0.01),
                                     - (rnd (counterAt r nodes m t + 1) * 0.01))))))"
proof -
  from assms(1,2) have ok: "preventOverlap self \<longrightarrow> nodeSize self \<noteq> None" by simp
  from calRepulsive_sum [OF ok, of rnd nodes acc r] obtain acc' where
    run: "calRepulsive self rnd nodes (acc, r)
            = Inr (acc', r + 2 * drawsBefore nodes (length nodes))"
    and sums: "\<forall>t < length nodes.
                 acc' (2 * t)
                   = acc (2 * t)
                     + (\<Sum>m \<in> {0..<length nodes} - {t}.
                          fst (baseTerm self rnd r nodes t m)
                          + fst (collisionTerm self rnd r nodes t m))
                 \<and> acc' (2 * t + 1)
                   = acc (2 * t + 1)
                     + (\<Sum>m \<in> {0..<length nodes} - {t}.
                          snd (baseTerm self rnd r nodes t m)
                          + snd (collisionTerm self rnd r nodes t m))"
    by blast
  have each: "let ni = nodes ! t; nj = nodes ! m;
                  v = pairVector rnd r nodes t m;
                  d = sqrt (fst v * fst v + snd v * snd v);
                  c = collideStrength self * ((nodeStrength self ni + nodeStrength self nj) / 2)
                        / (d * d)
              in (d \<noteq> 0 \<and> massOf self ni \<noteq> 0 \<longrightarrow>
                    (if sz ni / 2 + sz nj / 2 > d
                     then collisionTerm self rnd r nodes t m
                            = (c * (fst v / d) / massOf self ni, c * (snd v / d) / massOf self ni)
                     else collisionTerm self rnd r nodes t m = (0, 0)))
                 \<and> (\<not> coincide ni nj \<longrightarrow>
                      v = (node_x ni - node_x nj, node_y ni - node_y nj))
                 \<and> (coincide ni nj \<longrightarrow>
                      v = (if t < m
                           then (rnd (counterAt r nodes t m) * 0.01,
                                 rnd (counterAt r nodes t m + 1) * 0.01)
                           else (- (rnd (counterAt r nodes m t) * 0.01),
                                 - (rnd (counterAt r nodes m t + 1) * 0.01))))" for t m
    using collision_pair [OF assms(1,2), where nodes = nodes and t = t and m = m
                            and rnd = rnd and r = r]
          pairVector_apart [where nodes = nodes and t = t and m = m and rnd = rnd and r = r]
          pairVector_coincide [where nodes = nodes and t = t and m = m and rnd = rnd and r = r]
    unfolding Let_def by blast
  from run sums each show ?thesis by blast
qed

theorem overlap_collision_witness:
  "preventOverlap defaultLayout \<and> nodeSize defaultLayout = Some (Sizes (\<lambda>n. 10))
   \<and> coulombDisScale defaultLayout \<noteq> 0
   \<and> massOf defaultLayout ([nodeA, nodeC] ! 0) \<noteq> 0
   \<and> coincide ([nodeA, nodeC] ! 0) ([nodeA, nodeC] ! 1)
   \<and> vlen (pairVector unevenRnd 0 [nodeA, nodeC] 0 1) \<noteq> 0
   \<and> (\<exists>acc'. calRepulsive defaultLayout unevenRnd [nodeA, nodeC] (zeroBuffer, 0) = Inr (acc', 2)
         \<and> acc' 0 = 0.6 * (1000 / (0.00055 * 0.00055)) + 6000000
         \<and> acc' 1 = 0.8 * (1000 / (0.00055 * 0.00055)) + 8000000)
   \<and> pairVector unevenRnd 0 [nodeA, nodeC] 0 1 = (0.6 * 0.01, 0.8 * 0.01)
   \<and> collisionTerm defaultLayout unevenRnd 0 [nodeA, nodeC] 0 1 = (6000000, 8000000)"
proof -
  let ?nodes = "[nodeA, nodeC]"
  have h: "preventOverlap defaultLayout" "nodeSize defaultLayout = Some (Sizes (\<lambda>n. 10))"
          "coulombDisScale defaultLayout \<noteq> 0"
    by (simp_all add: defaultLayout_def)
  have mass: "massOf defaultLayout (?nodes ! 0) \<noteq> 0"
    by (simp add: defaultLayout_repulsion)
  have co: "coincide (?nodes ! 0) (?nodes ! 1)"
    by (simp add: example_coincide)
  have nz: "vlen (pairVector unevenRnd 0 ?nodes 0 1) \<noteq> 0"
    by (simp only: perturbed_pair vlen_perturbed) simp
  then have guard: "\<forall>m < length ?nodes. m \<noteq> 0 \<longrightarrow> vlen (pairVector unevenRnd 0 ?nodes 0 m) \<noteq> 0"
    by (simp add: less_Suc_eq)
  have draws: "drawsBefore ?nodes (length ?nodes) = 1"
    by (simp add: drawsBefore_def drawsInRow_def example_coincide upt_rec)
  from overlap_collision [OF h, of unevenRnd ?nodes zeroBuffer 0]
  obtain acc' where
    run: "calRepulsive defaultLayout unevenRnd ?nodes (zeroBuffer, 0)
            = Inr (acc', 0 + 2 * drawsBefore ?nodes (length ?nodes))"
    and sums: "\<forall>t < length ?nodes.
                 (\<forall>m < length ?nodes. m \<noteq> t \<longrightarrow> vlen (pairVector unevenRnd 0 ?nodes t m) \<noteq> 0)
                 \<and> massOf defaultLayout (?nodes ! t) \<noteq> 0 \<longrightarrow>
                 acc' (2 * t)
                   = zeroBuffer (2 * t)
                     + (\<Sum>m \<in> {0..<length ?nodes} - {t}.
                          fst (baseTerm defaultLayout unevenRnd 0 ?nodes t m)
                          + fst (collisionTerm defaultLayout unevenRnd 0 ?nodes t m))
                 \<and> acc' (2 * t + 1)
                   = zeroBuffer (2 * t + 1)
                     + (\<Sum>m \<in> {0..<length ?nodes} - {t}.
                          snd (baseTerm defaultLayout unevenRnd 0 ?nodes t m)
                          + snd (collisionTerm defaultLayout unevenRnd 0 ?nodes t m))"
    by blast
  from run have run': "calRepulsive defaultLayout unevenRnd ?nodes (zeroBuffer, 0) = Inr (acc', 2)"
    by (simp only: draws) simp
  have "(0::nat) < length ?nodes" by simp
  with sums guard mass
  have "acc' (2 * 0)
          = zeroBuffer (2 * 0)
            + (\<Sum>m \<in> {0..<length ?nodes} - {0}.
                 fst (baseTerm defaultLayout unevenRnd 0 ?nodes 0 m)
                 + fst (collisionTerm defaultLayout unevenRnd 0 ?nodes 0 m))
         \<and> acc' (2 * 0 + 1)
          = zeroBuffer (2 * 0 + 1)
            + (\<Sum>m \<in> {0..<length ?nodes} - {0}.
                 snd (baseTerm defaultLayout unevenRnd 0 ?nodes 0 m)
                 + snd (collisionTerm defaultLayout unevenRnd 0 ?nodes 0 m))"
    by blast
  then have vals: "acc' 0 = 0.6 * (1000 / (0.00055 * 0.00055)) + 6000000"
                  "acc' 1 = 0.8 * (1000 / (0.00055 * 0.00055)) + 8000000"
    unfolding two_nodes using perturbed_terms by (simp_all add: zeroBuffer_def)
  from h mass co nz run' vals perturbed_pair perturbed_terms(4) show ?thesis by blast
qed

end
